theory Spec2Isabelle
  imports Main
begin

section \<open>Threads, handles and the resolution log\<close>

text \<open>
  The sources are the listings of chapter 2 of a concurrency textbook: three wrappers around
  \<^verbatim>\<open>std::thread\<close> of growing strength, \<^verbatim>\<open>thread_guard\<close>, \<^verbatim>\<open>scoped_thread\<close> and
  \<^verbatim>\<open>joining_thread\<close> (file \<^verbatim>\<open>02- Managing Threads.cpp\<close>).

  Every \<^verbatim>\<open>std::thread\<close> object lives at an address; the heap maps the address to the worker
  the object is associated with, or to \<open>None\<close> for an object that is associated with no
  worker (default constructed, moved from, joined or detached). A wrapper that has the single
  member \<^verbatim>\<open>std::thread t\<close> is identified with the address of that member; \<^verbatim>\<open>thread_guard\<close>,
  whose member is a reference, is a record holding the address it refers to.

  The log records every resolution of a worker in the order it happened: \<open>Joined w\<close> when
  a \<^verbatim>\<open>join\<close> on \<open>w\<close> returned (the worker has completed by then), \<open>Detached w\<close> when
  \<open>w\<close> was handed to the runtime.
\<close>

type_synonym tid = nat
type_synonym addr = nat

datatype event = Joined tid | Detached tid

text \<open>
  The ways an operation can fail. \<open>LogicError\<close> is \<^verbatim>\<open>std::logic_error\<close> with its message,
  thrown by \<^verbatim>\<open>scoped_thread\<close>'s constructor. \<open>NotJoinable\<close> is what \<^verbatim>\<open>std::thread::join\<close> and
  \<^verbatim>\<open>std::thread::detach\<close> throw on an object without a worker (\<^verbatim>\<open>std::system_error\<close> carrying
  \<^verbatim>\<open>std::errc::invalid_argument\<close>). \<open>Terminate\<close> is a call of \<^verbatim>\<open>std::terminate\<close>: it is not an
  exception, nothing is unwound after it.
\<close>

datatype error = LogicError string | NotJoinable | Terminate

record state =
  heap :: "addr \<Rightarrow> tid option"
  log :: "event list"
  next_tid :: tid
  frame_top :: addr

type_synonym result = "(error + unit) \<times> state"

definition and_then :: "result \<Rightarrow> (state \<Rightarrow> result) \<Rightarrow> result" where
  "and_then r f = (case r of (Inr _, s) \<Rightarrow> f s | (Inl e, s) \<Rightarrow> (Inl e, s))"

text \<open>An exception that leaves a \<^verbatim>\<open>noexcept\<close> function calls \<^verbatim>\<open>std::terminate\<close>.\<close>

definition noexcept :: "result \<Rightarrow> result" where
  "noexcept r = (case r of (Inr u, s) \<Rightarrow> (Inr u, s) | (Inl e, s) \<Rightarrow> (Inl Terminate, s))"

definition resolutions :: "state \<Rightarrow> tid \<Rightarrow> nat" where
  "resolutions s w = length (filter (\<lambda>e. e = Joined w \<or> e = Detached w) (log s))"

definition completed :: "state \<Rightarrow> tid \<Rightarrow> bool" where
  "completed s w = (Joined w \<in> set (log s))"

subsection \<open>The thread primitive\<close>

text \<open>
  Modelled from the spec: \<^verbatim>\<open>std::thread\<close> of the C++ standard library. The sources only use
  it (\<^verbatim>\<open>#include <thread>\<close>); its members are not part of them. The model follows the
  specification's words for the native primitive (a handle owns an optional worker; a worker is
  joinable while it is running or finished but unresolved; \<open>wait\<close> and \<open>release\<close> turn the handle
  to absent and fail with \<open>NotJoinable\<close> on a handle without a worker) and the sources' own
  comments on it (\<^verbatim>\<open>join() can be called only "once" for a given thread\<close>; after
  \<^verbatim>\<open>std::thread thread2 = std::move(thread1)\<close> the source is empty; the assignment
  \<^verbatim>\<open>thread1 = std::move(thread3)\<close> to a thread that has a worker calls \<^verbatim>\<open>std::terminate()\<close>).
  Where neither speaks the C++ standard is followed: destroying a thread object that has a
  worker calls \<^verbatim>\<open>std::terminate\<close>, and \<^verbatim>\<open>swap\<close> exchanges the workers of two objects.
  A \<^verbatim>\<open>join\<close> is taken to return: the worker's callable is assumed to finish. Launching a
  thread is taken to succeed.
\<close>

definition thread_joinable :: "addr \<Rightarrow> state \<Rightarrow> bool" where
  "thread_joinable a s = (heap s a \<noteq> None)"

definition thread_default :: "addr \<Rightarrow> state \<Rightarrow> state" where
  "thread_default a s = s\<lparr>heap := (heap s)(a := None)\<rparr>"

definition thread_launch :: "addr \<Rightarrow> state \<Rightarrow> state" where
  "thread_launch a s =
     s\<lparr>heap := (heap s)(a := Some (next_tid s)), next_tid := Suc (next_tid s)\<rparr>"

definition thread_move_ctor :: "addr \<Rightarrow> addr \<Rightarrow> state \<Rightarrow> state" where
  "thread_move_ctor a src s = s\<lparr>heap := (heap s)(a := heap s src, src := None)\<rparr>"

definition thread_move_assign :: "addr \<Rightarrow> addr \<Rightarrow> state \<Rightarrow> result" where
  "thread_move_assign a src s =
     (if thread_joinable a s then (Inl Terminate, s)
      else (Inr (), s\<lparr>heap := (heap s)(a := heap s src, src := None)\<rparr>))"

definition thread_join :: "addr \<Rightarrow> state \<Rightarrow> result" where
  \<comment> \<open>Modelled from the spec: \<^verbatim>\<open>std::thread::join\<close>, the specification's \<open>wait\<close>.\<close>
  "thread_join a s =
     (case heap s a of
        None \<Rightarrow> (Inl NotJoinable, s)
      | Some w \<Rightarrow> (Inr (), s\<lparr>heap := (heap s)(a := None), log := log s @ [Joined w]\<rparr>))"

definition thread_detach :: "addr \<Rightarrow> state \<Rightarrow> result" where
  \<comment> \<open>Modelled from the spec: \<^verbatim>\<open>std::thread::detach\<close>, the specification's \<open>release\<close>.\<close>
  "thread_detach a s =
     (case heap s a of
        None \<Rightarrow> (Inl NotJoinable, s)
      | Some w \<Rightarrow> (Inr (), s\<lparr>heap := (heap s)(a := None), log := log s @ [Detached w]\<rparr>))"

definition thread_swap :: "addr \<Rightarrow> addr \<Rightarrow> state \<Rightarrow> state" where
  \<comment> \<open>Modelled from the spec: \<^verbatim>\<open>std::thread::swap\<close>. The specification is silent on it; this
      is the exchange of the two objects' workers that the C++ standard describes.\<close>
  "thread_swap a b s = s\<lparr>heap := (heap s)(a := heap s b, b := heap s a)\<rparr>"

definition thread_dtor :: "addr \<Rightarrow> state \<Rightarrow> result" where
  "thread_dtor a s = (if thread_joinable a s then (Inl Terminate, s) else (Inr (), s))"

subsection \<open>\<^verbatim>\<open>thread_guard\<close>\<close>

text \<open>
  \<^verbatim>\<open>
  class thread_guard {
      std::thread &t;
  public:
      explicit thread_guard(std::thread &t_) : t(t_) {}
      ~thread_guard() { if (t.joinable()) { t.join(); } }
      thread_guard(thread_guard const &) = delete;
      thread_guard &operator=(thread_guard const &) = delete;
  };
  \<close>
  The member is a reference, so the destructor's body is all that runs: the thread object
  itself is destroyed by its own scope. A destructor is \<^verbatim>\<open>noexcept\<close> unless declared otherwise.
\<close>

record thread_guard =
  guard_t :: addr

definition thread_guard_ctor :: "addr \<Rightarrow> thread_guard" where
  "thread_guard_ctor t' = \<lparr>guard_t = t'\<rparr>"

definition thread_guard_dtor :: "thread_guard \<Rightarrow> state \<Rightarrow> result" where
  "thread_guard_dtor g s =
     noexcept (if thread_joinable (guard_t g) s then thread_join (guard_t g) s else (Inr (), s))"

text \<open>
  \<^verbatim>\<open>
  void f2() {
      int some_local_state = 0;
      func my_func(some_local_state);
      std::thread thread(my_func);
      thread_guard guard(thread);
      do_something_in_current_thread();
  }
  \<close>
  \<^verbatim>\<open>do_something_in_current_thread\<close> is declared only; it has no access to the locals, so all
  that matters of it here is whether it returns or throws. Either way the locals are destroyed
  in the reverse order of their construction and the outcome of the call is the outcome of
  \<^verbatim>\<open>f2\<close>; after \<^verbatim>\<open>std::terminate\<close> nothing runs.
\<close>

definition f2 :: "error + unit \<Rightarrow> state \<Rightarrow> result" where
  "f2 do_something_in_current_thread s =
     (let thread = frame_top s;
          s1 = thread_launch thread (s\<lparr>frame_top := Suc (frame_top s)\<rparr>);
          guard = thread_guard_ctor thread
      in if do_something_in_current_thread = Inl Terminate then (Inl Terminate, s1)
         else and_then (thread_guard_dtor guard s1) (\<lambda>s2.
              and_then (thread_dtor thread s2) (\<lambda>s3.
              (do_something_in_current_thread, s3\<lparr>frame_top := frame_top s\<rparr>))))"

subsection \<open>\<^verbatim>\<open>scoped_thread\<close>\<close>

text \<open>
  \<^verbatim>\<open>
  class scoped_thread {
      std::thread t;
  public:
      explicit scoped_thread(std::thread t_) : t(std::move(t_)) {
          if (!t.joinable()) throw std::logic_error("No thread");
      }
      ~scoped_thread() { t.join(); }
      scoped_thread(scoped_thread const &) = delete;
      scoped_thread &operator=(scoped_thread const &) = delete;
  };
  \<close>
  The constructor takes the thread by value: \<open>t'\<close> is the address of the parameter object
  \<^verbatim>\<open>t_\<close>.
  When the constructor throws, the member that was already built is destroyed and no
  \<^verbatim>\<open>scoped_thread\<close> exists. After the destructor's body the member is destroyed.
\<close>

definition scoped_thread_ctor :: "addr \<Rightarrow> addr \<Rightarrow> state \<Rightarrow> result" where
  "scoped_thread_ctor this t' s =
     (let s1 = thread_move_ctor this t' s
      in if \<not> thread_joinable this s1
         then and_then (thread_dtor this s1) (\<lambda>s2. (Inl (LogicError ''No thread''), s2))
         else (Inr (), s1))"

definition scoped_thread_dtor :: "addr \<Rightarrow> state \<Rightarrow> result" where
  "scoped_thread_dtor this s = and_then (noexcept (thread_join this s)) (thread_dtor this)"

subsection \<open>\<^verbatim>\<open>joining_thread\<close>\<close>

text \<open>
  \<^verbatim>\<open>
  class joining_thread {
      std::thread t;
  public:
      joining_thread() noexcept = default;
      template<typename Callable, typename ... Args>
      explicit joining_thread(Callable&& func, Args&& ... args):
          t(std::forward<Callable>(func), std::forward<Args>(args)...) {}
      explicit joining_thread(std::thread t_) noexcept: t(std::move(t_)) {}
      joining_thread(joining_thread&& other) noexcept: t(std::move(other.t)) {}
      joining_thread& operator=(joining_thread&& other) noexcept {
          if(joinable()) join();
          t = std::move(other.t);
          return *this;
      }
      joining_thread& operator=(std::thread other) noexcept {
          if(joinable()) join();
          t = std::move(other);
          return *this;
      }
      ~joining_thread() noexcept { if(joinable()) join(); }
      void swap(joining_thread &other) noexcept { t.swap(other.t); }
      bool joinable() const noexcept { return t.joinable(); }
      void join() { t.join(); }
      void detach() { t.detach(); }
  };
  \<close>
  The members \<^verbatim>\<open>get_id\<close> and \<^verbatim>\<open>as_thread\<close> are left out. The variadic constructor starts a
  thread; what it does with its arguments is the subject of a section of its own below.
\<close>

definition joining_thread_default :: "addr \<Rightarrow> state \<Rightarrow> state" where
  "joining_thread_default this s = thread_default this s"

definition joining_thread_create :: "addr \<Rightarrow> state \<Rightarrow> state" where
  "joining_thread_create this s = thread_launch this s"

definition joining_thread_adopt :: "addr \<Rightarrow> addr \<Rightarrow> state \<Rightarrow> state" where
  "joining_thread_adopt this t' s = thread_move_ctor this t' s"

definition joining_thread_move_ctor :: "addr \<Rightarrow> addr \<Rightarrow> state \<Rightarrow> state" where
  "joining_thread_move_ctor this other s = thread_move_ctor this other s"

definition joining_thread_joinable :: "addr \<Rightarrow> state \<Rightarrow> bool" where
  "joining_thread_joinable this s = thread_joinable this s"

definition joining_thread_join :: "addr \<Rightarrow> state \<Rightarrow> result" where
  "joining_thread_join this s = thread_join this s"

definition joining_thread_detach :: "addr \<Rightarrow> state \<Rightarrow> result" where
  "joining_thread_detach this s = thread_detach this s"

definition joining_thread_move_assign :: "addr \<Rightarrow> addr \<Rightarrow> state \<Rightarrow> result" where
  "joining_thread_move_assign this other s =
     noexcept
       (and_then (if joining_thread_joinable this s then joining_thread_join this s
                  else (Inr (), s))
                 (thread_move_assign this other))"

text \<open>
  The second assignment takes a \<^verbatim>\<open>std::thread\<close> by value; the parameter object at \<open>other\<close>
  is destroyed when the operator returns.
\<close>

definition joining_thread_assign_thread :: "addr \<Rightarrow> addr \<Rightarrow> state \<Rightarrow> result" where
  "joining_thread_assign_thread this other s =
     noexcept
       (and_then
          (and_then (if joining_thread_joinable this s then joining_thread_join this s
                     else (Inr (), s))
                    (thread_move_assign this other))
          (thread_dtor other))"

definition joining_thread_dtor :: "addr \<Rightarrow> state \<Rightarrow> result" where
  "joining_thread_dtor this s =
     and_then
       (noexcept (if joining_thread_joinable this s then joining_thread_join this s
                  else (Inr (), s)))
       (thread_dtor this)"

definition joining_thread_swap :: "addr \<Rightarrow> addr \<Rightarrow> state \<Rightarrow> state" where
  "joining_thread_swap this other s = thread_swap this other s"

subsection \<open>Leaving a scope\<close>

text \<open>
  The handles of a scope are destroyed when the scope is left, the last one built first.
  That happens on every way out (the end of the block, a \<^verbatim>\<open>return\<close>, an exception passing
  through), and the way out is kept as the outcome of the scope. Only \<^verbatim>\<open>std::terminate\<close>
  leaves nothing to destroy.
\<close>

fun destroy_handles :: "addr list \<Rightarrow> state \<Rightarrow> result" where
  "destroy_handles [] s = (Inr (), s)"
| "destroy_handles (h # hs) s = and_then (joining_thread_dtor h s) (destroy_handles hs)"

definition leave_scope :: "addr list \<Rightarrow> result \<Rightarrow> result" where
  "leave_scope hs r =
     (case r of
        (Inl Terminate, s) \<Rightarrow> (Inl Terminate, s)
      | (x, s) \<Rightarrow> and_then (destroy_handles hs s) (\<lambda>s'. (x, s')))"

subsection \<open>Scopes of \<^verbatim>\<open>joining_thread\<close> handles\<close>

text \<open>
  A block that declares and uses \<^verbatim>\<open>joining_thread\<close> handles is a list of statements. The
  handles of the block are the objects at the addresses below \<open>frame_top\<close>; a declaration
  builds the next one there. The class has no copy constructor and no copy assignment (a
  declared move constructor deletes both; \<^verbatim>\<open>thread_guard\<close> and \<^verbatim>\<open>scoped_thread\<close> delete them
  by hand), so a block has no statement that copies a handle.
  \<^item> \<open>Create\<close>: \<^verbatim>\<open>joining_thread h(work);\<close>
  \<^item> \<open>Default\<close>: \<^verbatim>\<open>joining_thread h;\<close>
  \<^item> \<open>MoveCtor b\<close>: \<^verbatim>\<open>joining_thread h(std::move(b));\<close>
  \<^item> \<open>MoveAssign a b\<close>: \<^verbatim>\<open>a = std::move(b);\<close>
  \<^item> \<open>AssignThread a\<close>: \<^verbatim>\<open>a = std::thread(work);\<close> (the temporary is built above the handles)
  \<^item> \<open>Swap a b\<close>: \<^verbatim>\<open>a.swap(b);\<close>
  \<^item> \<open>Join a\<close>: \<^verbatim>\<open>a.join();\<close>
  \<^item> \<open>Detach a\<close>: \<^verbatim>\<open>a.detach();\<close>
  A statement that throws ends the block; leaving the block destroys its handles. Reaching
  into a handle for the wrapped thread (\<^verbatim>\<open>as_thread\<close>) is not a statement of these blocks.
\<close>

datatype op = Create | Default | MoveCtor addr | MoveAssign addr addr | AssignThread addr
  | Swap addr addr | Join addr | Detach addr

fun step :: "op \<Rightarrow> state \<Rightarrow> result" where
  "step Create s =
     (Inr (), joining_thread_create (frame_top s) (s\<lparr>frame_top := Suc (frame_top s)\<rparr>))"
| "step Default s =
     (Inr (), joining_thread_default (frame_top s) (s\<lparr>frame_top := Suc (frame_top s)\<rparr>))"
| "step (MoveCtor b) s =
     (Inr (), joining_thread_move_ctor (frame_top s) b (s\<lparr>frame_top := Suc (frame_top s)\<rparr>))"
| "step (MoveAssign a b) s = joining_thread_move_assign a b s"
| "step (AssignThread a) s =
     joining_thread_assign_thread a (frame_top s) (thread_launch (frame_top s) s)"
| "step (Swap a b) s = (Inr (), joining_thread_swap a b s)"
| "step (Join a) s = joining_thread_join a s"
| "step (Detach a) s = joining_thread_detach a s"

fun exec :: "op list \<Rightarrow> state \<Rightarrow> result" where
  "exec [] s = (Inr (), s)"
| "exec (x # xs) s = and_then (step x s) (exec xs)"

definition run_scope :: "op list \<Rightarrow> state \<Rightarrow> result" where
  "run_scope ops s =
     (let r = exec ops s in leave_scope (rev [0..<frame_top (snd r)]) r)"

text \<open>A statement can only name a handle that has been declared before it.\<close>

fun names :: "op \<Rightarrow> addr list" where
  "names Create = []"
| "names Default = []"
| "names (MoveCtor b) = [b]"
| "names (MoveAssign a b) = [a, b]"
| "names (AssignThread a) = [a]"
| "names (Swap a b) = [a, b]"
| "names (Join a) = [a]"
| "names (Detach a) = [a]"

fun declares :: "op \<Rightarrow> nat" where
  "declares Create = 1"
| "declares Default = 1"
| "declares (MoveCtor b) = 1"
| "declares x = 0"

fun well_formed :: "nat \<Rightarrow> op list \<Rightarrow> bool" where
  "well_formed n [] = True"
| "well_formed n (x # xs) = (list_all (\<lambda>a. a < n) (names x) \<and> well_formed (n + declares x) xs)"

text \<open>
  The number of handles of the block that own worker \<open>w\<close>, and the ownership invariant: a
  worker that has been created is either owned by one handle and unresolved, or owned by none
  and resolved once; a worker that has not been created is neither owned nor resolved.
\<close>

definition holders :: "(addr \<Rightarrow> tid option) \<Rightarrow> nat \<Rightarrow> tid \<Rightarrow> nat" where
  "holders f n w = length (filter (\<lambda>a. f a = Some w) [0..<n])"

definition owners :: "state \<Rightarrow> tid \<Rightarrow> nat" where
  "owners s w = holders (heap s) (frame_top s) w"

definition exactly_once :: "state \<Rightarrow> bool" where
  "exactly_once s = (\<forall>w. owners s w + resolutions s w = (if w < next_tid s then 1 else 0))"

subsection \<open>Arguments of a new thread\<close>

text \<open>
  Modelled from the spec: the constructor of \<^verbatim>\<open>std::thread\<close> that takes a callable and its
  arguments, to which \<^verbatim>\<open>joining_thread(Callable&& func, Args&& ... args)\<close> forwards everything
  it gets. It is not part of the sources. By the specification the arguments are captured by
  value unless the caller marks one as a shared reference, and by the sources' comments
  (\<^verbatim>\<open>by default, arguments are copied\<close>; \<^verbatim>\<open>If callable object for thread function is used,
  object is copied\<close>; \<^verbatim>\<open>use std::ref()\<close>) the new thread gets copies and calls the function on
  them.

  The caller's objects are cells of a memory; \<open>brk\<close> is the first address not in use. A cell
  holds a number or a reference to another cell (an \<^verbatim>\<open>int&\<close> member, a pointer). An
  argument is written \<open>Plain a\<close> for the object at \<open>a\<close> named as it is, and \<open>StdRef a\<close>
  for \<^verbatim>\<open>std::ref\<close> of it; a callable object is passed like any argument. Capturing gives each
  parameter of the worker the cell it is bound to: a new cell holding a copy, or the caller's
  own cell. A copy of a reference is a reference to the same cell.

  The code of a callable is given by what it makes of the memory, knowing the cells its
  parameters are bound to. Nothing restricts it: it may write to its parameters, through any
  reference it finds, or to any other cell (a global). The worker is run to its end where
  the thread is built; a caller that leaves the cells alone until its \<^verbatim>\<open>join\<close> returns finds
  the memory so when it returns.
\<close>

datatype val = Num int | Ref addr

record memory =
  cells :: "addr \<Rightarrow> val"
  brk :: addr

datatype arg = Plain addr | StdRef addr

type_synonym callable = "addr list \<Rightarrow> (addr \<Rightarrow> val) \<Rightarrow> (addr \<Rightarrow> val)"

fun capture :: "arg list \<Rightarrow> memory \<Rightarrow> addr list \<times> memory" where
  \<comment> \<open>Modelled from the spec: how the constructor of \<^verbatim>\<open>std::thread\<close> stores its arguments.\<close>
  "capture [] m = ([], m)"
| "capture (Plain a # args) m =
     (let p = brk m;
          (ps, m') = capture args (m\<lparr>cells := (cells m)(p := cells m a), brk := Suc p\<rparr>)
      in (p # ps, m'))"
| "capture (StdRef a # args) m =
     (let (ps, m') = capture args m in (a # ps, m'))"

definition invoke :: "callable \<Rightarrow> addr list \<Rightarrow> memory \<Rightarrow> memory" where
  "invoke f ps m = m\<lparr>cells := f ps (cells m)\<rparr>"

definition run_thread :: "callable \<Rightarrow> arg list \<Rightarrow> memory \<Rightarrow> memory" where
  "run_thread f args m = (let (ps, m') = capture args m in invoke f ps m')"

text \<open>
  \<^verbatim>\<open>joining_thread(Callable&& func, Args&& ... args)\<close> forwards the callable and every argument,
  as the caller wrote it, to that constructor.
\<close>

definition joining_thread_forward :: "callable \<Rightarrow> arg list \<Rightarrow> memory \<Rightarrow> memory" where
  "joining_thread_forward func args m = run_thread func args m"

fun target :: "arg \<Rightarrow> addr" where
  "target (Plain a) = a"
| "target (StdRef a) = a"

text \<open>
  A callable works on its parameters only when it leaves every cell that is not one of its
  parameters as it found it. \<open>assigns g\<close> is such a callable: it gives its parameters the
  values \<open>g\<close> makes of the values they had, as a function like
  \<^verbatim>\<open>update_data_for_widget(widget_id w, widget_data &data)\<close> does that fills in \<^verbatim>\<open>data\<close>.
\<close>

definition works_on_parameters :: "callable \<Rightarrow> bool" where
  "works_on_parameters f = (\<forall>ps c a. a \<notin> set ps \<longrightarrow> f ps c a = c a)"

fun write_back :: "addr list \<Rightarrow> val list \<Rightarrow> (addr \<Rightarrow> val) \<Rightarrow> (addr \<Rightarrow> val)" where
  "write_back (p # ps) (v # vs) c = write_back ps vs (c(p := v))"
| "write_back ps vs c = c"

definition assigns :: "(val list \<Rightarrow> val list) \<Rightarrow> callable" where
  "assigns g ps c = write_back ps (g (map c ps)) c"

text \<open>
  The callable of the chapter's first listing holds a reference, and \<^verbatim>\<open>f2\<close> starts a thread
  on a copy of it (lines 39 to 50 and 134 to 141):
  \<^verbatim>\<open>
  void do_something(int &i);
  struct func {
      int &i;
      func(int &i_) : i(i_) {}
      void operator()() {
          for (unsigned j = 0; j < 1000000; ++j)
              do_something(i);
      }
  };
  void f2() {
      int some_local_state = 0;
      func my_func(some_local_state);
      std::thread thread(my_func);
      thread_guard guard(thread);
      do_something_in_current_thread();
  }
  \<close>
  A \<^verbatim>\<open>func\<close> object is one cell that holds the reference \<open>i\<close>; the one parameter of its
  \<^verbatim>\<open>operator()\<close> is the object it is called on. \<^verbatim>\<open>do_something\<close> is declared only; what it
  makes of the number it is handed is a parameter. \<open>f2_locals\<close> is the memory after the two
  declarations of \<^verbatim>\<open>f2\<close>. \<open>f2_joined\<close> is the memory when the guard's \<^verbatim>\<open>join\<close> has returned,
  at the end of \<^verbatim>\<open>f2\<close> and before its locals are destroyed: the worker has run to its end,
  and \<^verbatim>\<open>do_something_in_current_thread\<close> had no access to the locals.
\<close>

definition func_call :: "(int \<Rightarrow> int) \<Rightarrow> callable" where
  "func_call do_something ps c =
     (case ps of
        [this] \<Rightarrow>
          (case c this of
             Ref i \<Rightarrow>
               (case c i of
                  Num n \<Rightarrow> c(i := Num ((do_something ^^ 1000000) n))
                | Ref r \<Rightarrow> c)
           | Num n \<Rightarrow> c)
      | _ \<Rightarrow> c)"

definition f2_locals :: "memory \<Rightarrow> memory" where
  "f2_locals m =
     (let some_local_state = brk m;
          my_func = Suc (brk m)
      in m\<lparr>cells := (cells m)(some_local_state := Num 0, my_func := Ref some_local_state),
           brk := Suc (Suc (brk m))\<rparr>)"

definition f2_joined :: "(int \<Rightarrow> int) \<Rightarrow> memory \<Rightarrow> memory" where
  "f2_joined do_something m =
     run_thread (func_call do_something) [Plain (Suc (brk m))] (f2_locals m)"

text \<open>
  A second callable on the same locals, for a function that takes a number and a \<^verbatim>\<open>func\<close>,
  both by value, and stores through the reference the \<^verbatim>\<open>func\<close> holds:
  \<^verbatim>\<open>void g(int x, func q) { q.i = 42; }\<close>, started as
  \<^verbatim>\<open>std::thread t(g, some_local_state, my_func);\<close>.
\<close>

definition store_through :: callable where
  "store_through ps c =
     (case ps of
        [x, q] \<Rightarrow> (case c q of Ref i \<Rightarrow> c(i := Num 42) | Num n \<Rightarrow> c)
      | _ \<Rightarrow> c)"

definition fresh :: memory where
  "fresh = \<lparr>cells = (\<lambda>a. Num 0), brk = 0\<rparr>"

section \<open>Destruction\<close>

lemma and_then_Inr [simp]: "and_then (Inr u, s) f = f s"
  by (simp add: and_then_def)

lemma and_then_Inl [simp]: "and_then (Inl e, s) f = (Inl e, s)"
  by (simp add: and_then_def)

lemma noexcept_Inr [simp]: "noexcept (Inr u, s) = (Inr u, s)"
  by (simp add: noexcept_def)

lemma noexcept_Inl [simp]: "noexcept (Inl e, s) = (Inl Terminate, s)"
  by (simp add: noexcept_def)

lemma joining_thread_dtor_owned:
  "heap s h = Some w \<Longrightarrow>
     joining_thread_dtor h s =
       (Inr (), s\<lparr>heap := (heap s)(h := None), log := log s @ [Joined w]\<rparr>)"
  by (simp add: joining_thread_dtor_def joining_thread_joinable_def joining_thread_join_def
      thread_joinable_def thread_join_def thread_dtor_def)

lemma joining_thread_dtor_empty:
  "heap s h = None \<Longrightarrow> joining_thread_dtor h s = (Inr (), s)"
  by (simp add: joining_thread_dtor_def joining_thread_joinable_def thread_joinable_def
      thread_dtor_def)

lemma thread_guard_dtor_owned:
  "heap s (guard_t g) = Some w \<Longrightarrow>
     thread_guard_dtor g s =
       (Inr (), s\<lparr>heap := (heap s)(guard_t g := None), log := log s @ [Joined w]\<rparr>)"
  by (simp add: thread_guard_dtor_def thread_joinable_def thread_join_def)

lemma thread_guard_dtor_empty:
  "heap s (guard_t g) = None \<Longrightarrow> thread_guard_dtor g s = (Inr (), s)"
  by (simp add: thread_guard_dtor_def thread_joinable_def)

text \<open>
  Destroying a list of handles never fails, empties each of them, touches no other object,
  and extends the log by one \<open>Joined\<close> entry for each worker that was still owned.
\<close>

lemma destroy_handles_ok: "fst (destroy_handles hs s) = Inr ()"
proof (induction hs arbitrary: s)
  case Nil
  show ?case by simp
next
  case (Cons h hs)
  show ?case
  proof (cases "heap s h")
    case None
    then show ?thesis using Cons.IH by (simp add: joining_thread_dtor_empty)
  next
    case (Some w)
    then show ?thesis using Cons.IH by (simp add: joining_thread_dtor_owned)
  qed
qed

lemma destroy_handles_heap:
  "heap (snd (destroy_handles hs s)) a = (if a \<in> set hs then None else heap s a)"
proof (induction hs arbitrary: s)
  case Nil
  show ?case by simp
next
  case (Cons h hs)
  show ?case
  proof (cases "heap s h")
    case None
    then show ?thesis using Cons.IH [of s] by (auto simp: joining_thread_dtor_empty)
  next
    case (Some w)
    then show ?thesis
      using Cons.IH [of "s\<lparr>heap := (heap s)(h := None), log := log s @ [Joined w]\<rparr>"]
      by (simp add: joining_thread_dtor_owned)
  qed
qed

lemma destroy_handles_log:
  "\<exists>es. log (snd (destroy_handles hs s)) = log s @ es"
proof (induction hs arbitrary: s)
  case Nil
  show ?case by simp
next
  case (Cons h hs)
  show ?case
  proof (cases "heap s h")
    case None
    then show ?thesis using Cons.IH [of s] by (simp add: joining_thread_dtor_empty)
  next
    case (Some w)
    then show ?thesis
      using Cons.IH [of "s\<lparr>heap := (heap s)(h := None), log := log s @ [Joined w]\<rparr>"]
      by (auto simp: joining_thread_dtor_owned)
  qed
qed

lemma destroy_handles_completed:
  "h \<in> set hs \<Longrightarrow> heap s h = Some w \<Longrightarrow> completed (snd (destroy_handles hs s)) w"
proof (induction hs arbitrary: s)
  case Nil
  then show ?case by simp
next
  case (Cons x hs)
  show ?case
  proof (cases "heap s x")
    case None
    with Cons.prems have "h \<in> set hs" by auto
    then show ?thesis using None Cons.IH [of s] Cons.prems(2)
      by (simp add: joining_thread_dtor_empty)
  next
    case (Some v)
    let ?s1 = "s\<lparr>heap := (heap s)(x := None), log := log s @ [Joined v]\<rparr>"
    obtain es where es: "log (snd (destroy_handles hs ?s1)) = log ?s1 @ es"
      using destroy_handles_log by blast
    show ?thesis
    proof (cases "h = x")
      case True
      with Some Cons.prems(2) have "v = w" by simp
      then show ?thesis using Some es by (simp add: joining_thread_dtor_owned completed_def)
    next
      case False
      with Cons.prems have "h \<in> set hs" and "heap ?s1 h = Some w" by auto
      then have "completed (snd (destroy_handles hs ?s1)) w" by (rule Cons.IH)
      then show ?thesis using Some by (simp add: joining_thread_dtor_owned)
    qed
  qed
qed

lemma leave_scope_unwinds:
  "x \<noteq> Inl Terminate \<Longrightarrow> leave_scope hs (x, s) = (x, snd (destroy_handles hs s))"
proof -
  assume x: "x \<noteq> Inl Terminate"
  obtain s' where s': "destroy_handles hs s = (Inr (), s')"
    using destroy_handles_ok [of hs s] by (cases "destroy_handles hs s") auto
  show ?thesis
  proof (cases x)
    case (Inl e)
    with x have "e \<noteq> Terminate" by simp
    then show ?thesis using Inl s' by (cases e) (simp_all add: leave_scope_def)
  next
    case (Inr u)
    then show ?thesis using s' by (simp add: leave_scope_def)
  qed
qed

text \<open>
  Claim C1. A handle that still owns an unresolved worker when it is destroyed waits for that
  worker: the destructors of \<^verbatim>\<open>thread_guard\<close>, of \<^verbatim>\<open>joining_thread\<close> and of
  \<^verbatim>\<open>scoped_thread\<close> each return normally, with the worker joined and the handle empty. This
  holds on every way out of the scope: whether the body of \<^verbatim>\<open>f2\<close> returns or throws, \<^verbatim>\<open>f2\<close> ends with that same
  outcome, its worker completed and its thread object empty; and whatever the outcome \<open>x\<close> of
  a scope that holds \<^verbatim>\<open>joining_thread\<close> handles \<open>hs\<close>, leaving it keeps \<open>x\<close>, completes the
  worker of each handle of \<open>hs\<close> and leaves that handle empty.
\<close>

theorem destroy_waits_on_every_exit:
  "(heap s (guard_t g) = Some w \<longrightarrow>
      thread_guard_dtor g s =
        (Inr (), s\<lparr>heap := (heap s)(guard_t g := None), log := log s @ [Joined w]\<rparr>))
   \<and> (heap s h = Some w \<longrightarrow>
      joining_thread_dtor h s =
        (Inr (), s\<lparr>heap := (heap s)(h := None), log := log s @ [Joined w]\<rparr>))
   \<and> (heap s h = Some w \<longrightarrow>
      scoped_thread_dtor h s =
        (Inr (), s\<lparr>heap := (heap s)(h := None), log := log s @ [Joined w]\<rparr>))
   \<and> (x \<noteq> Inl Terminate \<longrightarrow>
      fst (f2 x s) = x \<and> completed (snd (f2 x s)) (next_tid s)
      \<and> heap (snd (f2 x s)) (frame_top s) = None)
   \<and> (x \<noteq> Inl Terminate \<and> h \<in> set hs \<and> heap s h = Some w \<longrightarrow>
      fst (leave_scope hs (x, s)) = x \<and> completed (snd (leave_scope hs (x, s))) w
      \<and> heap (snd (leave_scope hs (x, s))) h = None)"
proof (intro conjI impI)
  assume "heap s (guard_t g) = Some w"
  then show "thread_guard_dtor g s =
      (Inr (), s\<lparr>heap := (heap s)(guard_t g := None), log := log s @ [Joined w]\<rparr>)"
    by (rule thread_guard_dtor_owned)
next
  assume "heap s h = Some w"
  then show "joining_thread_dtor h s =
      (Inr (), s\<lparr>heap := (heap s)(h := None), log := log s @ [Joined w]\<rparr>)"
    by (rule joining_thread_dtor_owned)
next
  assume "heap s h = Some w"
  then show "scoped_thread_dtor h s =
      (Inr (), s\<lparr>heap := (heap s)(h := None), log := log s @ [Joined w]\<rparr>)"
    by (simp add: scoped_thread_dtor_def thread_join_def thread_dtor_def thread_joinable_def)
next
  assume x: "x \<noteq> Inl Terminate"
  let ?s1 = "thread_launch (frame_top s) (s\<lparr>frame_top := Suc (frame_top s)\<rparr>)"
  have owned: "heap ?s1 (guard_t (thread_guard_ctor (frame_top s))) = Some (next_tid s)"
    by (simp add: thread_launch_def thread_guard_ctor_def)
  have f2_eq: "f2 x s =
      (x, ?s1\<lparr>heap := (heap ?s1)(frame_top s := None), log := log ?s1 @ [Joined (next_tid s)],
              frame_top := frame_top s\<rparr>)"
    using x thread_guard_dtor_owned [OF owned]
    by (simp add: f2_def Let_def thread_dtor_def thread_joinable_def thread_guard_ctor_def)
  show "fst (f2 x s) = x" by (simp add: f2_eq)
  show "completed (snd (f2 x s)) (next_tid s)" by (simp add: f2_eq completed_def)
  show "heap (snd (f2 x s)) (frame_top s) = None" by (simp add: f2_eq)
next
  assume a: "x \<noteq> Inl Terminate \<and> h \<in> set hs \<and> heap s h = Some w"
  then have eq: "leave_scope hs (x, s) = (x, snd (destroy_handles hs s))"
    by (simp add: leave_scope_unwinds)
  show "fst (leave_scope hs (x, s)) = x" by (simp add: eq)
  show "completed (snd (leave_scope hs (x, s))) w"
    using a destroy_handles_completed [of h hs s w] by (simp add: eq)
  show "heap (snd (leave_scope hs (x, s))) h = None"
    using a by (simp add: eq destroy_handles_heap)
qed

theorem destroy_waits_on_every_exit_witness:
  "thread_guard_dtor \<lparr>guard_t = 0\<rparr>
       \<lparr>heap = (\<lambda>a. None)(0 := Some 7), log = [], next_tid = 8, frame_top = 1\<rparr>
     = (Inr (), \<lparr>heap = (\<lambda>a. None), log = [Joined 7], next_tid = 8, frame_top = 1\<rparr>)
   \<and> joining_thread_dtor 0
       \<lparr>heap = (\<lambda>a. None)(0 := Some 7), log = [], next_tid = 8, frame_top = 1\<rparr>
     = (Inr (), \<lparr>heap = (\<lambda>a. None), log = [Joined 7], next_tid = 8, frame_top = 1\<rparr>)
   \<and> scoped_thread_dtor 0
       \<lparr>heap = (\<lambda>a. None)(0 := Some 7), log = [], next_tid = 8, frame_top = 1\<rparr>
     = (Inr (), \<lparr>heap = (\<lambda>a. None), log = [Joined 7], next_tid = 8, frame_top = 1\<rparr>)
   \<and> fst (f2 (Inl NotJoinable)
       \<lparr>heap = (\<lambda>a. None)(0 := Some 7), log = [], next_tid = 8, frame_top = 1\<rparr>)
     = Inl NotJoinable
   \<and> completed (snd (f2 (Inl NotJoinable)
       \<lparr>heap = (\<lambda>a. None)(0 := Some 7), log = [], next_tid = 8, frame_top = 1\<rparr>)) 8
   \<and> fst (leave_scope [0] (Inl NotJoinable,
       \<lparr>heap = (\<lambda>a. None)(0 := Some 7), log = [], next_tid = 8, frame_top = 1\<rparr>))
     = Inl NotJoinable
   \<and> completed (snd (leave_scope [0] (Inl NotJoinable,
       \<lparr>heap = (\<lambda>a. None)(0 := Some 7), log = [], next_tid = 8, frame_top = 1\<rparr>))) 7"
  using destroy_waits_on_every_exit
    [of "\<lparr>heap = (\<lambda>a. None)(0 := Some 7), log = [], next_tid = 8, frame_top = 1\<rparr>"
        "\<lparr>guard_t = 0\<rparr>" 7 0 "Inl NotJoinable" "[0]"]
  by simp

section \<open>Destroying an empty handle\<close>

text \<open>
  Claim C9. Destroying a handle that owns no worker does nothing: the destructor of
  \<^verbatim>\<open>joining_thread\<close> and the destructor of \<^verbatim>\<open>thread_guard\<close> return normally and leave the
  whole state as it was, so no wait is performed (the log is the same) and no error is raised;
  the \<^verbatim>\<open>join\<close> sits behind the \<^verbatim>\<open>joinable\<close> test and its failure is not reached. The handle
  may be empty because it was default constructed, moved from, or already joined.
\<close>

theorem destroy_empty_is_noop:
  "(heap s h = None \<longrightarrow> joining_thread_dtor h s = (Inr (), s))
   \<and> (heap s (guard_t g) = None \<longrightarrow> thread_guard_dtor g s = (Inr (), s))
   \<and> joining_thread_dtor h (joining_thread_default h s) = (Inr (), joining_thread_default h s)
   \<and> (src \<noteq> h \<longrightarrow>
        joining_thread_dtor src (joining_thread_move_ctor h src s)
          = (Inr (), joining_thread_move_ctor h src s))
   \<and> (heap s h = Some w \<longrightarrow>
        and_then (joining_thread_join h s) (joining_thread_dtor h) = joining_thread_join h s)"
proof (intro conjI impI)
  show "joining_thread_dtor h (joining_thread_default h s) = (Inr (), joining_thread_default h s)"
    by (rule joining_thread_dtor_empty) (simp add: joining_thread_default_def thread_default_def)
next
  assume "src \<noteq> h"
  then show "joining_thread_dtor src (joining_thread_move_ctor h src s)
      = (Inr (), joining_thread_move_ctor h src s)"
    by (intro joining_thread_dtor_empty)
      (simp add: joining_thread_move_ctor_def thread_move_ctor_def)
next
  assume "heap s h = Some w"
  then show "and_then (joining_thread_join h s) (joining_thread_dtor h) = joining_thread_join h s"
    by (simp add: joining_thread_join_def thread_join_def joining_thread_dtor_empty)
qed (simp_all add: joining_thread_dtor_empty thread_guard_dtor_empty)

theorem destroy_empty_is_noop_witness:
  "joining_thread_dtor 0 \<lparr>heap = (\<lambda>a. None), log = [], next_tid = 0, frame_top = 1\<rparr>
     = (Inr (), \<lparr>heap = (\<lambda>a. None), log = [], next_tid = 0, frame_top = 1\<rparr>)
   \<and> thread_guard_dtor \<lparr>guard_t = 0\<rparr>
       \<lparr>heap = (\<lambda>a. None), log = [], next_tid = 0, frame_top = 1\<rparr>
     = (Inr (), \<lparr>heap = (\<lambda>a. None), log = [], next_tid = 0, frame_top = 1\<rparr>)
   \<and> joining_thread_dtor 1 (joining_thread_move_ctor 0 1
       \<lparr>heap = (\<lambda>a. None)(1 := Some 3), log = [], next_tid = 4, frame_top = 2\<rparr>)
     = (Inr (), \<lparr>heap = (\<lambda>a. None)(0 := Some 3), log = [], next_tid = 4, frame_top = 2\<rparr>)
   \<and> and_then
       (joining_thread_join 0
          \<lparr>heap = (\<lambda>a. None)(0 := Some 3), log = [], next_tid = 4, frame_top = 2\<rparr>)
       (joining_thread_dtor 0)
     = (Inr (), \<lparr>heap = (\<lambda>a. None), log = [Joined 3], next_tid = 4, frame_top = 2\<rparr>)"
  using destroy_empty_is_noop
    [of "\<lparr>heap = (\<lambda>a. None), log = [], next_tid = 0, frame_top = 1\<rparr>" 0 "\<lparr>guard_t = 0\<rparr>"]
    destroy_empty_is_noop
    [of "\<lparr>heap = (\<lambda>a. None)(1 := Some 3), log = [], next_tid = 4, frame_top = 2\<rparr>" 0 _ 1]
    destroy_empty_is_noop
    [of "\<lparr>heap = (\<lambda>a. None)(0 := Some 3), log = [], next_tid = 4, frame_top = 2\<rparr>" 0 _ _ 3]
  by (simp add: joining_thread_move_ctor_def thread_move_ctor_def fun_upd_twist
      joining_thread_join_def thread_join_def)

section \<open>Move assignment\<close>

lemma join_owned:
  "heap s h = Some w \<Longrightarrow>
     joining_thread_join h s =
       (Inr (), s\<lparr>heap := (heap s)(h := None), log := log s @ [Joined w]\<rparr>)"
  by (simp add: joining_thread_join_def thread_join_def)

lemma move_assign_owned:
  "heap s this = Some w \<Longrightarrow>
     joining_thread_move_assign this other s =
       (Inr (), s\<lparr>heap := (heap s)(this := (if other = this then None else heap s other),
                                   other := None),
                  log := log s @ [Joined w]\<rparr>)"
  by (simp add: joining_thread_move_assign_def joining_thread_joinable_def thread_joinable_def
      join_owned thread_move_assign_def)

lemma move_assign_empty:
  "heap s this = None \<Longrightarrow>
     joining_thread_move_assign this other s =
       (Inr (), s\<lparr>heap := (heap s)(this := heap s other, other := None)\<rparr>)"
  by (simp add: joining_thread_move_assign_def joining_thread_joinable_def thread_joinable_def
      thread_move_assign_def)

lemma assign_thread_owned:
  "heap s this = Some w \<Longrightarrow>
     joining_thread_assign_thread this other s =
       (Inr (), s\<lparr>heap := (heap s)(this := (if other = this then None else heap s other),
                                   other := None),
                  log := log s @ [Joined w]\<rparr>)"
  by (simp add: joining_thread_assign_thread_def joining_thread_joinable_def
      thread_joinable_def join_owned thread_move_assign_def thread_dtor_def)

lemma assign_thread_empty:
  "heap s this = None \<Longrightarrow>
     joining_thread_assign_thread this other s =
       (Inr (), s\<lparr>heap := (heap s)(this := heap s other, other := None)\<rparr>)"
  by (simp add: joining_thread_assign_thread_def joining_thread_joinable_def
      thread_joinable_def thread_move_assign_def thread_dtor_def)

text \<open>
  Claim C3. When the destination of a move assignment owns an unresolved worker \<open>w\<close>, the
  assignment first joins \<open>w\<close> and only then transfers: the result of both assignment operators
  is the transfer applied to the state that the join left. So the assignment returns normally,
  \<open>Joined w\<close> is the one entry added to the log, the destination holds what the source held
  (nothing, when a handle is assigned to itself) and the source is empty. The worker that the
  destination owned is never dropped unresolved.
\<close>

theorem move_assign_waits_first:
  "heap s this = Some w \<Longrightarrow>
     joining_thread_join this s
       = (Inr (), s\<lparr>heap := (heap s)(this := None), log := log s @ [Joined w]\<rparr>)
   \<and> joining_thread_move_assign this other s
       = thread_move_assign this other (snd (joining_thread_join this s))
   \<and> joining_thread_assign_thread this other s
       = and_then (thread_move_assign this other (snd (joining_thread_join this s)))
           (thread_dtor other)
   \<and> joining_thread_move_assign this other s
       = (Inr (), s\<lparr>heap := (heap s)(this := (if other = this then None else heap s other),
                                     other := None),
                    log := log s @ [Joined w]\<rparr>)
   \<and> joining_thread_assign_thread this other s
       = (Inr (), s\<lparr>heap := (heap s)(this := (if other = this then None else heap s other),
                                     other := None),
                    log := log s @ [Joined w]\<rparr>)"
proof (intro conjI)
  assume owned: "heap s this = Some w"
  show "joining_thread_join this s
      = (Inr (), s\<lparr>heap := (heap s)(this := None), log := log s @ [Joined w]\<rparr>)"
    using owned by (rule join_owned)
  show "joining_thread_move_assign this other s
      = thread_move_assign this other (snd (joining_thread_join this s))"
    using owned
    by (simp add: joining_thread_move_assign_def joining_thread_joinable_def
        thread_joinable_def join_owned thread_move_assign_def)
  show "joining_thread_assign_thread this other s
      = and_then (thread_move_assign this other (snd (joining_thread_join this s)))
          (thread_dtor other)"
    using owned
    by (simp add: joining_thread_assign_thread_def joining_thread_joinable_def
        thread_joinable_def join_owned thread_move_assign_def thread_dtor_def)
  show "joining_thread_move_assign this other s
      = (Inr (), s\<lparr>heap := (heap s)(this := (if other = this then None else heap s other),
                                    other := None),
                   log := log s @ [Joined w]\<rparr>)"
    using owned by (rule move_assign_owned)
  show "joining_thread_assign_thread this other s
      = (Inr (), s\<lparr>heap := (heap s)(this := (if other = this then None else heap s other),
                                    other := None),
                   log := log s @ [Joined w]\<rparr>)"
    using owned by (rule assign_thread_owned)
qed

theorem move_assign_waits_first_witness:
  "heap \<lparr>heap = (\<lambda>a. None)(0 := Some 4, 1 := Some 5), log = [], next_tid = 6, frame_top = 2\<rparr> 0
     = Some 4
   \<and> fst (joining_thread_move_assign 0 1
       \<lparr>heap = (\<lambda>a. None)(0 := Some 4, 1 := Some 5), log = [], next_tid = 6, frame_top = 2\<rparr>)
     = Inr ()
   \<and> log (snd (joining_thread_move_assign 0 1
       \<lparr>heap = (\<lambda>a. None)(0 := Some 4, 1 := Some 5), log = [], next_tid = 6, frame_top = 2\<rparr>))
     = [Joined 4]
   \<and> heap (snd (joining_thread_move_assign 0 1
       \<lparr>heap = (\<lambda>a. None)(0 := Some 4, 1 := Some 5), log = [], next_tid = 6, frame_top = 2\<rparr>)) 0
     = Some 5
   \<and> heap (snd (joining_thread_move_assign 0 1
       \<lparr>heap = (\<lambda>a. None)(0 := Some 4, 1 := Some 5), log = [], next_tid = 6, frame_top = 2\<rparr>)) 1
     = None"
proof -
  let ?s = "\<lparr>heap = (\<lambda>a. None)(0 := Some 4, 1 := Some 5), log = [], next_tid = 6,
             frame_top = 2 :: nat\<rparr>"
  have owned: "heap ?s 0 = Some 4" by simp
  have "joining_thread_move_assign 0 1 ?s
      = (Inr (), ?s\<lparr>heap := (heap ?s)(0 := (if (1::nat) = 0 then None else heap ?s 1),
                                   1 := None),
                  log := log ?s @ [Joined 4]\<rparr>)"
    using move_assign_waits_first [OF owned, of 1] by blast
  then show ?thesis by simp
qed

section \<open>Adopting a thread\<close>

text \<open>
  Claim C4. Adopting a thread that is not joinable fails in the constructor of
  \<^verbatim>\<open>scoped_thread\<close>: the outcome is \<^verbatim>\<open>std::logic_error("No thread")\<close>, the kind the
  specification calls InvalidHandle, no object is built and the storage it would have used
  holds no worker. Adopting a joinable thread succeeds: the new \<^verbatim>\<open>scoped_thread\<close> owns the
  worker and the parameter it was moved from is empty. (The parameter is an object of its own,
  \<open>this \<noteq> t'\<close>.)
\<close>

theorem adopt_validates:
  "(heap s t' = None \<longrightarrow>
      scoped_thread_ctor this t' s
        = (Inl (LogicError ''No thread''), s\<lparr>heap := (heap s)(this := None)\<rparr>))
   \<and> (this \<noteq> t' \<and> heap s t' = Some w \<longrightarrow>
      scoped_thread_ctor this t' s
        = (Inr (), s\<lparr>heap := (heap s)(this := Some w, t' := None)\<rparr>))
   \<and> (this \<noteq> t' \<longrightarrow>
      (fst (scoped_thread_ctor this t' s) = Inr ()) = thread_joinable t' s)"
proof (intro conjI impI)
  assume empty: "heap s t' = None"
  then have "(heap s)(this := None, t' := None) = (heap s)(this := None)"
    by (auto simp: fun_eq_iff)
  then show "scoped_thread_ctor this t' s
      = (Inl (LogicError ''No thread''), s\<lparr>heap := (heap s)(this := None)\<rparr>)"
    using empty
    by (simp add: scoped_thread_ctor_def Let_def thread_move_ctor_def thread_joinable_def
        thread_dtor_def)
next
  assume "this \<noteq> t' \<and> heap s t' = Some w"
  then show "scoped_thread_ctor this t' s
      = (Inr (), s\<lparr>heap := (heap s)(this := Some w, t' := None)\<rparr>)"
    by (simp add: scoped_thread_ctor_def Let_def thread_move_ctor_def thread_joinable_def)
next
  assume "this \<noteq> t'"
  then show "(fst (scoped_thread_ctor this t' s) = Inr ()) = thread_joinable t' s"
    by (cases "heap s t'")
      (simp_all add: scoped_thread_ctor_def Let_def thread_move_ctor_def thread_joinable_def
        thread_dtor_def)
qed

theorem adopt_validates_witness:
  "scoped_thread_ctor 0 1 \<lparr>heap = (\<lambda>a. None), log = [], next_tid = 0, frame_top = 0\<rparr>
     = (Inl (LogicError ''No thread''),
        \<lparr>heap = (\<lambda>a. None), log = [], next_tid = 0, frame_top = 0\<rparr>)
   \<and> fst (scoped_thread_ctor 0 1
       \<lparr>heap = (\<lambda>a. None)(1 := Some 2), log = [], next_tid = 3, frame_top = 0\<rparr>) = Inr ()
   \<and> heap (snd (scoped_thread_ctor 0 1
       \<lparr>heap = (\<lambda>a. None)(1 := Some 2), log = [], next_tid = 3, frame_top = 0\<rparr>)) 0 = Some 2"
proof -
  let ?e = "\<lparr>heap = (\<lambda>a. None), log = [], next_tid = 0, frame_top = 0 :: nat\<rparr>"
  let ?s = "\<lparr>heap = (\<lambda>a. None)(1 := Some 2), log = [], next_tid = 3, frame_top = 0 :: nat\<rparr>"
  have "heap ?e 1 = None" by simp
  then have a: "scoped_thread_ctor 0 1 ?e
      = (Inl (LogicError ''No thread''), ?e\<lparr>heap := (heap ?e)(0 := None)\<rparr>)"
    using adopt_validates [of ?e 1 0] by blast
  have "(0::nat) \<noteq> 1 \<and> heap ?s 1 = Some 2" by simp
  then have b: "scoped_thread_ctor 0 1 ?s
      = (Inr (), ?s\<lparr>heap := (heap ?s)(0 := Some 2, 1 := None)\<rparr>)"
    using adopt_validates [of ?s 1 0 2] by blast
  show ?thesis using a b by simp
qed

section \<open>Waiting and releasing\<close>

text \<open>
  Claim C5. \<^verbatim>\<open>join\<close> and \<^verbatim>\<open>detach\<close> on a handle that owns no worker fail with \<open>NotJoinable\<close>
  and leave the whole state, the handle and the log of resolutions, as it was. In particular
  a second \<^verbatim>\<open>join\<close> after a first one, with no new worker in between, fails so: the worker is
  resolved once, not twice. \<open>NotJoinable\<close> is a kind of its own, distinct from the error of a
  rejected adoption and from termination.
\<close>

theorem resolve_without_worker_fails:
  "(heap s h = None \<longrightarrow>
      joining_thread_join h s = (Inl NotJoinable, s)
      \<and> joining_thread_detach h s = (Inl NotJoinable, s))
   \<and> (heap s h = Some w \<longrightarrow>
      fst (joining_thread_join h s) = Inr ()
      \<and> joining_thread_join h (snd (joining_thread_join h s))
          = (Inl NotJoinable, snd (joining_thread_join h s))
      \<and> joining_thread_detach h (snd (joining_thread_join h s))
          = (Inl NotJoinable, snd (joining_thread_join h s))
      \<and> resolutions (snd (joining_thread_join h s)) w = Suc (resolutions s w)
      \<and> and_then (joining_thread_join h s) (joining_thread_join h)
          = (Inl NotJoinable, snd (joining_thread_join h s)))
   \<and> NotJoinable \<noteq> LogicError msg \<and> NotJoinable \<noteq> Terminate"
proof (intro conjI impI)
  assume "heap s h = None"
  then show "joining_thread_join h s = (Inl NotJoinable, s)"
    and "joining_thread_detach h s = (Inl NotJoinable, s)"
    by (simp_all add: joining_thread_join_def thread_join_def joining_thread_detach_def
        thread_detach_def)
next
  assume owned: "heap s h = Some w"
  let ?s1 = "s\<lparr>heap := (heap s)(h := None), log := log s @ [Joined w]\<rparr>"
  have j: "joining_thread_join h s = (Inr (), ?s1)"
    using owned by (rule join_owned)
  show "fst (joining_thread_join h s) = Inr ()" by (simp add: j)
  show "joining_thread_join h (snd (joining_thread_join h s))
      = (Inl NotJoinable, snd (joining_thread_join h s))"
    by (simp add: j) (simp add: joining_thread_join_def thread_join_def)
  show "joining_thread_detach h (snd (joining_thread_join h s))
      = (Inl NotJoinable, snd (joining_thread_join h s))"
    by (simp add: j) (simp add: joining_thread_detach_def thread_detach_def)
  show "resolutions (snd (joining_thread_join h s)) w = Suc (resolutions s w)"
    by (simp add: j resolutions_def)
  show "and_then (joining_thread_join h s) (joining_thread_join h)
      = (Inl NotJoinable, snd (joining_thread_join h s))"
    by (simp add: j) (simp add: joining_thread_join_def thread_join_def)
qed simp_all

theorem resolve_without_worker_fails_witness:
  "joining_thread_join 0 \<lparr>heap = (\<lambda>a. None), log = [Joined 0], next_tid = 1, frame_top = 1\<rparr>
     = (Inl NotJoinable, \<lparr>heap = (\<lambda>a. None), log = [Joined 0], next_tid = 1, frame_top = 1\<rparr>)
   \<and> fst (and_then
       (joining_thread_join 0
          \<lparr>heap = (\<lambda>a. None)(0 := Some 0), log = [], next_tid = 1, frame_top = 1\<rparr>)
       (joining_thread_join 0)) = Inl NotJoinable
   \<and> log (snd (and_then
       (joining_thread_join 0
          \<lparr>heap = (\<lambda>a. None)(0 := Some 0), log = [], next_tid = 1, frame_top = 1\<rparr>)
       (joining_thread_join 0))) = [Joined 0]"
proof -
  let ?e = "\<lparr>heap = (\<lambda>a. None), log = [Joined 0], next_tid = 1, frame_top = 1 :: nat\<rparr>"
  let ?s = "\<lparr>heap = (\<lambda>a. None)(0 := Some 0), log = [], next_tid = 1, frame_top = 1 :: nat\<rparr>"
  have "heap ?e 0 = None" by simp
  then have a: "joining_thread_join 0 ?e = (Inl NotJoinable, ?e)"
    using resolve_without_worker_fails [of ?e 0] by blast
  have "heap ?s 0 = Some 0" by simp
  then have b: "and_then (joining_thread_join 0 ?s) (joining_thread_join 0)
      = (Inl NotJoinable, snd (joining_thread_join 0 ?s))"
    using resolve_without_worker_fails [of ?s 0 0] by blast
  show ?thesis using a b by (simp add: joining_thread_join_def thread_join_def)
qed

section \<open>Swapping\<close>

text \<open>
  Claim C10. \<^verbatim>\<open>swap\<close> exchanges what the two handles own and does nothing else: every other
  object, the log of resolutions and the workers created are as before, so neither worker is
  waited for or released, whatever the two handles own (a move assignment to a handle that
  owns a worker, by contrast, extends the log). Swapping twice gives back the state it
  started from.
\<close>

theorem swap_exchanges_without_resolving:
  "heap (joining_thread_swap a b s) a = heap s b
   \<and> heap (joining_thread_swap a b s) b = heap s a
   \<and> (\<forall>c. c \<noteq> a \<and> c \<noteq> b \<longrightarrow> heap (joining_thread_swap a b s) c = heap s c)
   \<and> log (joining_thread_swap a b s) = log s
   \<and> next_tid (joining_thread_swap a b s) = next_tid s
   \<and> resolutions (joining_thread_swap a b s) w = resolutions s w
   \<and> joining_thread_swap a b (joining_thread_swap a b s) = s"
proof -
  have "(heap s)(a := heap s b, b := heap s a, a := heap s a, b := heap s b) = heap s"
    by (auto simp: fun_eq_iff)
  then have "joining_thread_swap a b (joining_thread_swap a b s) = s"
    by (simp add: joining_thread_swap_def thread_swap_def)
  then show ?thesis
    by (simp add: joining_thread_swap_def thread_swap_def resolutions_def)
qed

theorem swap_exchanges_without_resolving_witness:
  "heap (joining_thread_swap 0 1
      \<lparr>heap = (\<lambda>a. None)(0 := Some 4, 1 := Some 5), log = [], next_tid = 6, frame_top = 2\<rparr>) 0
     = Some 5
   \<and> heap (joining_thread_swap 0 1
      \<lparr>heap = (\<lambda>a. None)(0 := Some 4, 1 := Some 5), log = [], next_tid = 6, frame_top = 2\<rparr>) 1
     = Some 4
   \<and> heap (joining_thread_swap 0 1
      \<lparr>heap = (\<lambda>a. None)(0 := Some 4, 1 := Some 5), log = [], next_tid = 6, frame_top = 2\<rparr>) 2
     = None
   \<and> log (joining_thread_swap 0 1
      \<lparr>heap = (\<lambda>a. None)(0 := Some 4, 1 := Some 5), log = [], next_tid = 6, frame_top = 2\<rparr>)
     = []"
  using swap_exchanges_without_resolving
    [of 0 1 "\<lparr>heap = (\<lambda>a. None)(0 := Some 4, 1 := Some 5), log = [], next_tid = 6,
              frame_top = 2\<rparr>"]
  by simp

section \<open>Exactly one resolution for each worker\<close>

text \<open>
  Counting the handles that hold a worker: how the count changes when one object of the
  block is overwritten, emptied, moved into an empty one, or swapped with another.
\<close>

lemma holders_Suc:
  "holders f (Suc n) w = holders f n w + (if f n = Some w then 1 else 0)"
  by (simp add: holders_def)

lemma holders_above: "n \<le> a \<Longrightarrow> holders (f(a := v)) n w = holders f n w"
  by (induction n) (simp_all add: holders_Suc, simp add: holders_def)

lemma holders_upd:
  "a < n \<Longrightarrow>
     holders (f(a := v)) n w + (if f a = Some w then 1 else 0)
       = holders f n w + (if v = Some w then 1 else 0)"
proof (induction n)
  case 0
  then show ?case by simp
next
  case (Suc n)
  show ?case
  proof (cases "a = n")
    case True
    have 1: "holders (f(n := v)) n w = holders f n w" by (rule holders_above) simp
    have 2: "holders (f(n := v)) (Suc n) w
        = holders (f(n := v)) n w + (if (f(n := v)) n = Some w then 1 else 0)"
      by (rule holders_Suc)
    have 3: "holders f (Suc n) w = holders f n w + (if f n = Some w then 1 else 0)"
      by (rule holders_Suc)
    show ?thesis unfolding True 2 3 1 by simp
  next
    case False
    with Suc.prems have "a < n" by simp
    then show ?thesis using Suc.IH False by (simp add: holders_Suc)
  qed
qed

lemma holders_clear:
  "a < n \<Longrightarrow> holders (f(a := None)) n w + (if f a = Some w then 1 else 0) = holders f n w"
  using holders_upd [of a n f None w] by simp

lemma holders_transfer:
  assumes "a < n" "b < n" "f a = None"
  shows "holders (f(a := f b, b := None)) n w = holders f n w"
proof (cases "a = b")
  case True
  then have "f(a := f b, b := None) = f" using assms(3) by (auto simp: fun_eq_iff)
  then show ?thesis by simp
next
  case False
  have 1: "holders (f(a := f b)) n w = holders f n w + (if f b = Some w then 1 else 0)"
    using holders_upd [of a n f "f b" w] assms by simp
  have "holders (f(a := f b, b := None)) n w + (if (f(a := f b)) b = Some w then 1 else 0)
      = holders (f(a := f b)) n w"
    using assms(2) by (rule holders_clear)
  then show ?thesis using 1 False by (simp split: if_splits)
qed

lemma holders_swap:
  assumes "a < n" "b < n"
  shows "holders (f(a := f b, b := f a)) n w = holders f n w"
proof (cases "a = b")
  case True
  then have "f(a := f b, b := f a) = f" by (auto simp: fun_eq_iff)
  then show ?thesis by simp
next
  case False
  have 1: "holders (f(a := f b)) n w + (if f a = Some w then 1 else 0)
      = holders f n w + (if f b = Some w then 1 else 0)"
    using assms(1) by (rule holders_upd)
  have 2: "holders (f(a := f b, b := f a)) n w + (if (f(a := f b)) b = Some w then 1 else 0)
      = holders (f(a := f b)) n w + (if f a = Some w then 1 else 0)"
    using assms(2) by (rule holders_upd)
  show ?thesis using 1 2 False by (simp split: if_splits)
qed


lemma detach_owned:
  "heap s h = Some w \<Longrightarrow>
     joining_thread_detach h s =
       (Inr (), s\<lparr>heap := (heap s)(h := None), log := log s @ [Detached w]\<rparr>)"
  by (simp add: joining_thread_detach_def thread_detach_def)

lemma join_empty: "heap s h = None \<Longrightarrow> joining_thread_join h s = (Inl NotJoinable, s)"
  by (simp add: joining_thread_join_def thread_join_def)

lemma detach_empty: "heap s h = None \<Longrightarrow> joining_thread_detach h s = (Inl NotJoinable, s)"
  by (simp add: joining_thread_detach_def thread_detach_def)

lemma resolutions_append:
  "resolutions (s\<lparr>heap := f, log := log s @ [e]\<rparr>) w
     = resolutions s w + (if e = Joined w \<or> e = Detached w then 1 else 0)"
  by (simp add: resolutions_def)

lemma resolutions_heap [simp]: "resolutions (s\<lparr>heap := f\<rparr>) w = resolutions s w"
  by (simp add: resolutions_def)

lemma resolutions_next_tid [simp]: "resolutions (s\<lparr>next_tid := k\<rparr>) w = resolutions s w"
  by (simp add: resolutions_def)

lemma resolutions_frame_top [simp]: "resolutions (s\<lparr>frame_top := n\<rparr>) w = resolutions s w"
  by (simp add: resolutions_def)

lemma resolutions_log:
  "resolutions (s\<lparr>log := log s @ [e]\<rparr>) w
     = resolutions s w + (if e = Joined w \<or> e = Detached w then 1 else 0)"
  by (simp add: resolutions_def)

lemma exactly_onceD:
  "exactly_once s \<Longrightarrow>
     holders (heap s) (frame_top s) w + resolutions s w = (if w < next_tid s then 1 else 0)"
  by (simp add: exactly_once_def owners_def)

lemma exactly_onceI:
  "(\<And>w. holders (heap s') (frame_top s') w + resolutions s' w
          = (if w < next_tid s' then 1 else 0)) \<Longrightarrow> exactly_once s'"
  by (simp add: exactly_once_def owners_def)

lemma inv_create:
  assumes "exactly_once s"
  shows "exactly_once (joining_thread_create (frame_top s) (s\<lparr>frame_top := Suc (frame_top s)\<rparr>))"
proof (rule exactly_onceI)
  fix w
  let ?n = "frame_top s"
  have "holders ((heap s)(?n := Some (next_tid s))) ?n w = holders (heap s) ?n w"
    by (rule holders_above) simp
  then have "holders ((heap s)(?n := Some (next_tid s))) (Suc ?n) w
      = holders (heap s) ?n w + (if next_tid s = w then 1 else 0)"
    by (simp add: holders_Suc [of "(heap s)(?n := Some (next_tid s))"])
  then show "holders (heap (joining_thread_create ?n (s\<lparr>frame_top := Suc ?n\<rparr>)))
        (frame_top (joining_thread_create ?n (s\<lparr>frame_top := Suc ?n\<rparr>))) w
      + resolutions (joining_thread_create ?n (s\<lparr>frame_top := Suc ?n\<rparr>)) w
      = (if w < next_tid (joining_thread_create ?n (s\<lparr>frame_top := Suc ?n\<rparr>)) then 1 else 0)"
    using exactly_onceD [OF assms, of w]
    by (auto simp: joining_thread_create_def thread_launch_def split: if_splits)
qed


lemma inv_default:
  assumes "exactly_once s"
  shows "exactly_once (joining_thread_default (frame_top s) (s\<lparr>frame_top := Suc (frame_top s)\<rparr>))"
proof (rule exactly_onceI)
  fix w
  let ?n = "frame_top s"
  let ?s' = "joining_thread_default ?n (s\<lparr>frame_top := Suc ?n\<rparr>)"
  have "holders ((heap s)(?n := None)) ?n w = holders (heap s) ?n w"
    by (rule holders_above) simp
  then have "holders ((heap s)(?n := None)) (Suc ?n) w = holders (heap s) ?n w"
    by (simp add: holders_Suc [of "(heap s)(?n := None)"])
  then show "holders (heap ?s') (frame_top ?s') w + resolutions ?s' w
      = (if w < next_tid ?s' then 1 else 0)"
    using exactly_onceD [OF assms, of w]
    by (simp add: joining_thread_default_def thread_default_def)
qed

lemma inv_move_ctor:
  assumes "exactly_once s" and "b < frame_top s"
  shows "exactly_once
           (joining_thread_move_ctor (frame_top s) b (s\<lparr>frame_top := Suc (frame_top s)\<rparr>))"
proof (rule exactly_onceI)
  fix w
  let ?n = "frame_top s"
  let ?f = "(heap s)(?n := heap s b, b := None)"
  let ?s' = "joining_thread_move_ctor ?n b (s\<lparr>frame_top := Suc ?n\<rparr>)"
  have ne: "b \<noteq> ?n" using assms(2) by simp
  then have f: "?f = ((heap s)(b := None))(?n := heap s b)" by (auto simp: fun_eq_iff)
  have "holders ?f ?n w = holders ((heap s)(b := None)) ?n w"
    unfolding f by (rule holders_above) simp
  moreover have "holders ((heap s)(b := None)) ?n w + (if heap s b = Some w then 1 else 0)
      = holders (heap s) ?n w"
    using assms(2) by (rule holders_clear)
  moreover have "holders ?f (Suc ?n) w = holders ?f ?n w + (if ?f ?n = Some w then 1 else 0)"
    by (rule holders_Suc)
  moreover have "?f ?n = heap s b" using ne by simp
  ultimately have "holders ?f (Suc ?n) w = holders (heap s) ?n w" by simp
  then show "holders (heap ?s') (frame_top ?s') w + resolutions ?s' w
      = (if w < next_tid ?s' then 1 else 0)"
    using exactly_onceD [OF assms(1), of w]
    by (simp add: joining_thread_move_ctor_def thread_move_ctor_def)
qed

lemma inv_resolve:
  assumes "exactly_once s" and "a < frame_top s" and "heap s a = Some v"
    and "e = Joined v \<or> e = Detached v"
  shows "exactly_once (s\<lparr>heap := (heap s)(a := None), log := log s @ [e]\<rparr>)"
proof (rule exactly_onceI)
  fix w
  let ?s' = "s\<lparr>heap := (heap s)(a := None), log := log s @ [e]\<rparr>"
  have "holders ((heap s)(a := None)) (frame_top s) w + (if heap s a = Some w then 1 else 0)
      = holders (heap s) (frame_top s) w"
    using assms(2) by (rule holders_clear)
  then show "holders (heap ?s') (frame_top ?s') w + resolutions ?s' w
      = (if w < next_tid ?s' then 1 else 0)"
    using exactly_onceD [OF assms(1), of w] assms(3,4)
    by (auto simp: resolutions_append split: if_splits)
qed

lemma inv_transfer:
  assumes "exactly_once s" and "a < frame_top s" and "b < frame_top s" and "heap s a = None"
  shows "exactly_once (s\<lparr>heap := (heap s)(a := heap s b, b := None)\<rparr>)"
proof (rule exactly_onceI)
  fix w
  let ?s' = "s\<lparr>heap := (heap s)(a := heap s b, b := None)\<rparr>"
  have "holders ((heap s)(a := heap s b, b := None)) (frame_top s) w
      = holders (heap s) (frame_top s) w"
    using assms(2,3,4) by (rule holders_transfer)
  then show "holders (heap ?s') (frame_top ?s') w + resolutions ?s' w
      = (if w < next_tid ?s' then 1 else 0)"
    using exactly_onceD [OF assms(1), of w] by simp
qed

lemma inv_swap:
  assumes "exactly_once s" and "a < frame_top s" and "b < frame_top s"
  shows "exactly_once (joining_thread_swap a b s)"
proof (rule exactly_onceI)
  fix w
  let ?s' = "joining_thread_swap a b s"
  have "holders ((heap s)(a := heap s b, b := heap s a)) (frame_top s) w
      = holders (heap s) (frame_top s) w"
    using assms(2,3) by (rule holders_swap)
  then show "holders (heap ?s') (frame_top ?s') w + resolutions ?s' w
      = (if w < next_tid ?s' then 1 else 0)"
    using exactly_onceD [OF assms(1), of w]
    by (simp add: joining_thread_swap_def thread_swap_def)
qed

lemma inv_launch_into:
  assumes "exactly_once s" and "a < frame_top s" and "heap s a = None"
  shows "exactly_once (s\<lparr>heap := (heap s)(a := Some (next_tid s), frame_top s := None),
                          next_tid := Suc (next_tid s)\<rparr>)"
proof (rule exactly_onceI)
  fix w
  let ?n = "frame_top s"
  let ?s' = "s\<lparr>heap := (heap s)(a := Some (next_tid s), ?n := None),
               next_tid := Suc (next_tid s)\<rparr>"
  have "holders ((heap s)(a := Some (next_tid s), ?n := None)) ?n w
      = holders ((heap s)(a := Some (next_tid s))) ?n w"
    by (rule holders_above) simp
  moreover have "holders ((heap s)(a := Some (next_tid s))) ?n w
        + (if heap s a = Some w then 1 else 0)
      = holders (heap s) ?n w + (if Some (next_tid s) = Some w then 1 else 0)"
    using assms(2) by (rule holders_upd)
  ultimately show "holders (heap ?s') (frame_top ?s') w + resolutions ?s' w
      = (if w < next_tid ?s' then 1 else 0)"
    using exactly_onceD [OF assms(1), of w] assms(3)
    by (auto split: if_splits)
qed


lemma inv_move_assign:
  assumes inv: "exactly_once s" and a: "a < frame_top s" and b: "b < frame_top s"
  shows "exactly_once (snd (joining_thread_move_assign a b s))
    \<and> fst (joining_thread_move_assign a b s) = Inr ()
    \<and> frame_top (snd (joining_thread_move_assign a b s)) = frame_top s"
proof (cases "heap s a")
  case None
  then show ?thesis using inv_transfer [OF inv a b None] by (simp add: move_assign_empty)
next
  case (Some v)
  let ?s1 = "s\<lparr>heap := (heap s)(a := None), log := log s @ [Joined v]\<rparr>"
  have inv1: "exactly_once ?s1" using inv a Some by (rule inv_resolve) simp
  have "exactly_once (?s1\<lparr>heap := (heap ?s1)(a := heap ?s1 b, b := None)\<rparr>)"
    by (rule inv_transfer [OF inv1]) (simp_all add: a b)
  moreover have "snd (joining_thread_move_assign a b s)
      = ?s1\<lparr>heap := (heap ?s1)(a := heap ?s1 b, b := None)\<rparr>"
    by (rule state.equality) (auto simp: move_assign_owned [OF Some] fun_eq_iff)
  moreover have "fst (joining_thread_move_assign a b s) = Inr ()"
    by (simp add: move_assign_owned [OF Some])
  ultimately show ?thesis by simp
qed

lemma inv_assign_thread:
  assumes inv: "exactly_once s" and a: "a < frame_top s"
  shows "exactly_once
           (snd (joining_thread_assign_thread a (frame_top s) (thread_launch (frame_top s) s)))
    \<and> fst (joining_thread_assign_thread a (frame_top s) (thread_launch (frame_top s) s)) = Inr ()
    \<and> frame_top
         (snd (joining_thread_assign_thread a (frame_top s) (thread_launch (frame_top s) s)))
       = frame_top s"
proof (cases "heap s a")
  case None
  let ?n = "frame_top s"
  let ?s0 = "thread_launch ?n s"
  have e0: "heap ?s0 a = None" using None a by (simp add: thread_launch_def)
  have r0: "joining_thread_assign_thread a ?n ?s0
      = (Inr (), ?s0\<lparr>heap := (heap ?s0)(a := heap ?s0 ?n, ?n := None)\<rparr>)"
    by (rule assign_thread_empty [OF e0])
  have eq: "snd (joining_thread_assign_thread a ?n ?s0)
      = s\<lparr>heap := (heap s)(a := Some (next_tid s), ?n := None),
           next_tid := Suc (next_tid s)\<rparr>"
    unfolding r0 by (rule state.equality) (auto simp: thread_launch_def fun_eq_iff)
  have ok: "fst (joining_thread_assign_thread a ?n ?s0) = Inr ()"
    unfolding r0 by simp
  show ?thesis using inv_launch_into [OF inv a None] ok by (simp add: eq)
next
  case (Some v)
  let ?n = "frame_top s"
  let ?s0 = "thread_launch ?n s"
  let ?s1 = "s\<lparr>heap := (heap s)(a := None), log := log s @ [Joined v]\<rparr>"
  have o0: "heap ?s0 a = Some v" using Some a by (simp add: thread_launch_def)
  have inv1: "exactly_once ?s1" using inv a Some by (rule inv_resolve) simp
  have "exactly_once (?s1\<lparr>heap := (heap ?s1)(a := Some (next_tid ?s1), frame_top ?s1 := None),
      next_tid := Suc (next_tid ?s1)\<rparr>)"
    by (rule inv_launch_into [OF inv1]) (simp_all add: a)
  moreover have r0: "joining_thread_assign_thread a ?n ?s0
      = (Inr (), ?s0\<lparr>heap := (heap ?s0)(a := (if ?n = a then None else heap ?s0 ?n),
                                       ?n := None),
                    log := log ?s0 @ [Joined v]\<rparr>)"
    by (rule assign_thread_owned [OF o0])
  moreover have "snd (joining_thread_assign_thread a ?n ?s0)
      = ?s1\<lparr>heap := (heap ?s1)(a := Some (next_tid ?s1), frame_top ?s1 := None),
             next_tid := Suc (next_tid ?s1)\<rparr>"
    unfolding r0 using a
    by (intro state.equality) (auto simp: thread_launch_def fun_eq_iff)
  moreover have "fst (joining_thread_assign_thread a ?n ?s0) = Inr ()"
    unfolding r0 by simp
  ultimately show ?thesis by simp
qed

lemma inv_join:
  assumes inv: "exactly_once s" and a: "a < frame_top s"
  shows "exactly_once (snd (joining_thread_join a s))
    \<and> fst (joining_thread_join a s) \<noteq> Inl Terminate
    \<and> frame_top (snd (joining_thread_join a s)) = frame_top s"
proof (cases "heap s a")
  case None
  then show ?thesis using inv by (simp add: join_empty)
next
  case (Some v)
  have "exactly_once (s\<lparr>heap := (heap s)(a := None), log := log s @ [Joined v]\<rparr>)"
    using inv a Some by (rule inv_resolve) simp
  then show ?thesis using Some by (simp add: join_owned)
qed

lemma inv_detach:
  assumes inv: "exactly_once s" and a: "a < frame_top s"
  shows "exactly_once (snd (joining_thread_detach a s))
    \<and> fst (joining_thread_detach a s) \<noteq> Inl Terminate
    \<and> frame_top (snd (joining_thread_detach a s)) = frame_top s"
proof (cases "heap s a")
  case None
  then show ?thesis using inv by (simp add: detach_empty)
next
  case (Some v)
  have "exactly_once (s\<lparr>heap := (heap s)(a := None), log := log s @ [Detached v]\<rparr>)"
    using inv a Some by (rule inv_resolve) simp
  then show ?thesis using Some by (simp add: detach_owned)
qed

lemma step_inv:
  assumes inv: "exactly_once s" and wf: "list_all (\<lambda>a. a < frame_top s) (names x)"
  shows "exactly_once (snd (step x s)) \<and> fst (step x s) \<noteq> Inl Terminate
    \<and> frame_top (snd (step x s)) = frame_top s + declares x"
proof (cases x)
  case Create
  then show ?thesis using inv_create [OF inv]
    by (simp add: joining_thread_create_def thread_launch_def)
next
  case Default
  then show ?thesis using inv_default [OF inv]
    by (simp add: joining_thread_default_def thread_default_def)
next
  case (MoveCtor b)
  then show ?thesis using inv_move_ctor [OF inv, of b] wf
    by (simp add: joining_thread_move_ctor_def thread_move_ctor_def)
next
  case (MoveAssign a b)
  then show ?thesis using inv_move_assign [OF inv, of a b] wf by simp
next
  case (AssignThread a)
  then show ?thesis using inv_assign_thread [OF inv, of a] wf by simp
next
  case (Swap a b)
  then show ?thesis using inv_swap [OF inv, of a b] wf
    by (simp add: joining_thread_swap_def thread_swap_def)
next
  case (Join a)
  then show ?thesis using inv_join [OF inv, of a] wf by simp
next
  case (Detach a)
  then show ?thesis using inv_detach [OF inv, of a] wf by simp
qed

lemma exec_inv:
  "exactly_once s \<Longrightarrow> well_formed (frame_top s) ops \<Longrightarrow>
     exactly_once (snd (exec ops s)) \<and> fst (exec ops s) \<noteq> Inl Terminate"
proof (induction ops arbitrary: s)
  case Nil
  then show ?case by simp
next
  case (Cons x xs)
  from Cons.prems have wf: "list_all (\<lambda>a. a < frame_top s) (names x)"
    and wfs: "well_formed (frame_top s + declares x) xs" by simp_all
  obtain r s1 where st: "step x s = (r, s1)" by (cases "step x s")
  from step_inv [OF Cons.prems(1) wf] st
  have inv1: "exactly_once s1" and r: "r \<noteq> Inl Terminate"
    and top1: "frame_top s1 = frame_top s + declares x" by simp_all
  show ?case
  proof (cases r)
    case (Inl e)
    then show ?thesis using st inv1 r by simp
  next
    case (Inr u)
    have "exactly_once (snd (exec xs s1)) \<and> fst (exec xs s1) \<noteq> Inl Terminate"
      using inv1 wfs by (intro Cons.IH) (simp_all add: top1)
    then show ?thesis using st Inr by simp
  qed
qed


lemma destroy_handles_inv:
  "exactly_once s \<Longrightarrow> list_all (\<lambda>a. a < frame_top s) hs \<Longrightarrow>
     exactly_once (snd (destroy_handles hs s))
     \<and> frame_top (snd (destroy_handles hs s)) = frame_top s
     \<and> next_tid (snd (destroy_handles hs s)) = next_tid s"
proof (induction hs arbitrary: s)
  case Nil
  then show ?case by simp
next
  case (Cons h hs)
  from Cons.prems have h: "h < frame_top s" and hs: "list_all (\<lambda>a. a < frame_top s) hs"
    by simp_all
  show ?case
  proof (cases "heap s h")
    case None
    then show ?thesis using Cons.IH [OF Cons.prems(1) hs]
      by (simp add: joining_thread_dtor_empty)
  next
    case (Some v)
    let ?s1 = "s\<lparr>heap := (heap s)(h := None), log := log s @ [Joined v]\<rparr>"
    have "exactly_once ?s1" using Cons.prems(1) h Some by (rule inv_resolve) simp
    moreover have "list_all (\<lambda>a. a < frame_top ?s1) hs" using hs by simp
    ultimately have "exactly_once (snd (destroy_handles hs ?s1))
        \<and> frame_top (snd (destroy_handles hs ?s1)) = frame_top ?s1
        \<and> next_tid (snd (destroy_handles hs ?s1)) = next_tid ?s1"
      by (rule Cons.IH)
    then show ?thesis using Some by (simp add: joining_thread_dtor_owned)
  qed
qed

lemma holders_none: "(\<And>a. a < n \<Longrightarrow> f a = None) \<Longrightarrow> holders f n w = 0"
  by (simp add: holders_def filter_empty_conv)


lemma run_scope_eq:
  assumes "fst (exec ops s) \<noteq> Inl Terminate"
  shows "run_scope ops s
      = (fst (exec ops s),
         snd (destroy_handles (rev [0..<frame_top (snd (exec ops s))]) (snd (exec ops s))))"
proof -
  obtain r s' where e: "exec ops s = (r, s')" by (cases "exec ops s")
  with assms have "r \<noteq> Inl Terminate" by simp
  then show ?thesis using e by (simp add: run_scope_def leave_scope_unwinds)
qed



section \<open>Releasing a worker\<close>

lemma step_log: "\<exists>es. log (snd (step x s)) = log s @ es"
proof (cases x)
  case (MoveAssign a b)
  then show ?thesis
    by (cases "heap s a") (simp_all add: move_assign_empty move_assign_owned)
next
  case (AssignThread a)
  let ?s0 = "thread_launch (frame_top s) s"
  have l0: "log ?s0 = log s" by (simp add: thread_launch_def)
  show ?thesis
  proof (cases "heap ?s0 a")
    case None
    then show ?thesis using AssignThread l0 by (simp add: assign_thread_empty)
  next
    case (Some v)
    then show ?thesis using AssignThread l0 by (simp add: assign_thread_owned)
  qed
next
  case (Join a)
  then show ?thesis by (cases "heap s a") (simp_all add: join_empty join_owned)
next
  case (Detach a)
  then show ?thesis by (cases "heap s a") (simp_all add: detach_empty detach_owned)
qed (simp_all add: joining_thread_create_def thread_launch_def joining_thread_default_def
    thread_default_def joining_thread_move_ctor_def thread_move_ctor_def
    joining_thread_swap_def thread_swap_def)

lemma exec_log: "\<exists>es. log (snd (exec ops s)) = log s @ es"
proof (induction ops arbitrary: s)
  case Nil
  show ?case by simp
next
  case (Cons x xs)
  obtain r s1 where st: "step x s = (r, s1)" by (cases "step x s")
  obtain es where es: "log s1 = log s @ es" using step_log [of x s] st by auto
  show ?case
  proof (cases r)
    case (Inl e)
    then show ?thesis using st es by simp
  next
    case (Inr u)
    obtain es' where "log (snd (exec xs s1)) = log s1 @ es'" using Cons.IH by blast
    then show ?thesis using st Inr es by simp
  qed
qed

lemma run_scope_inv:
  assumes inv: "exactly_once s" and wf: "well_formed (frame_top s) ops"
  shows "exactly_once (snd (run_scope ops s)) \<and> owners (snd (run_scope ops s)) w = 0
    \<and> next_tid (snd (run_scope ops s)) = next_tid (snd (exec ops s))
    \<and> (\<exists>es. log (snd (run_scope ops s)) = log s @ es)"
proof -
  let ?s' = "snd (exec ops s)"
  let ?hs = "rev [0..<frame_top ?s']"
  let ?t = "snd (destroy_handles ?hs ?s')"
  from exec_inv [OF inv wf] have inv': "exactly_once ?s'"
    and ok: "fst (exec ops s) \<noteq> Inl Terminate" by simp_all
  have run: "run_scope ops s = (fst (exec ops s), ?t)" using ok by (rule run_scope_eq)
  have "list_all (\<lambda>a. a < frame_top ?s') ?hs" by (simp add: list_all_iff)
  with inv' have invt: "exactly_once ?t" and topt: "frame_top ?t = frame_top ?s'"
    and nt: "next_tid ?t = next_tid ?s'"
    using destroy_handles_inv [of ?s' ?hs] by simp_all
  have "holders (heap ?t) (frame_top ?t) w = 0"
    by (rule holders_none) (simp add: topt destroy_handles_heap)
  then have none: "owners ?t w = 0" by (simp add: owners_def)
  obtain es where "log ?s' = log s @ es" using exec_log by blast
  moreover obtain es' where "log ?t = log ?s' @ es'" using destroy_handles_log by blast
  ultimately have "\<exists>es. log ?t = log s @ es" by simp
  then show ?thesis using invt none nt by (simp add: run)
qed

lemma holders_pos: "a < n \<Longrightarrow> f a = Some w \<Longrightarrow> 0 < holders f n w"
  using holders_clear [of a n f w] by simp

lemma next_tid_step: "next_tid s \<le> next_tid (snd (step x s))"
proof (cases x)
  case (MoveAssign a b)
  then show ?thesis
    by (cases "heap s a") (simp_all add: move_assign_empty move_assign_owned)
next
  case (AssignThread a)
  let ?s0 = "thread_launch (frame_top s) s"
  have l0: "next_tid s \<le> next_tid ?s0" by (simp add: thread_launch_def)
  show ?thesis
  proof (cases "heap ?s0 a")
    case None
    then show ?thesis using AssignThread l0 by (simp add: assign_thread_empty)
  next
    case (Some v)
    then show ?thesis using AssignThread l0 by (simp add: assign_thread_owned)
  qed
next
  case (Join a)
  then show ?thesis by (cases "heap s a") (simp_all add: join_empty join_owned)
next
  case (Detach a)
  then show ?thesis by (cases "heap s a") (simp_all add: detach_empty detach_owned)
qed (simp_all add: joining_thread_create_def thread_launch_def joining_thread_default_def
    thread_default_def joining_thread_move_ctor_def thread_move_ctor_def
    joining_thread_swap_def thread_swap_def)

lemma next_tid_exec: "next_tid s \<le> next_tid (snd (exec ops s))"
proof (induction ops arbitrary: s)
  case Nil
  show ?case by simp
next
  case (Cons x xs)
  obtain r s1 where st: "step x s = (r, s1)" by (cases "step x s")
  have 1: "next_tid s \<le> next_tid s1" using next_tid_step [of s x] st by simp
  show ?case
  proof (cases r)
    case (Inl e)
    then show ?thesis using st 1 by simp
  next
    case (Inr u)
    have "next_tid s1 \<le> next_tid (snd (exec xs s1))" by (rule Cons.IH)
    then show ?thesis using st Inr 1 by simp
  qed
qed

lemma resolved_stays:
  assumes "resolutions s w = 1" and "resolutions t w = 1" and "log t = log s @ es"
  shows "(Joined w \<in> set (log t)) = (Joined w \<in> set (log s))"
proof -
  have "resolutions t w
      = resolutions s w + length (filter (\<lambda>e. e = Joined w \<or> e = Detached w) es)"
    using assms(3) by (simp add: resolutions_def)
  with assms(1,2) have "filter (\<lambda>e. e = Joined w \<or> e = Detached w) es = []" by simp
  then have "Joined w \<notin> set es" by (auto simp: filter_empty_conv)
  then show ?thesis using assms(3) by auto
qed

text \<open>
  The handle side of a release. Let a handle \<open>h\<close> own the worker \<open>w\<close>. Then \<^verbatim>\<open>detach\<close> on
  \<open>h\<close> returns normally and adds \<open>Detached w\<close> to the log. Afterwards \<open>h\<close> reports no worker,
  and \<^verbatim>\<open>join\<close> and \<^verbatim>\<open>detach\<close> on it fail with \<open>NotJoinable\<close> and change nothing. If \<open>h\<close> is
  a handle of a block in which every worker has one owner or one resolution, then no handle
  of the block holds \<open>w\<close> any more, and that stays so: after any well-formed list of later
  statements no handle holds \<open>w\<close>, and when the block has been left the release is still the
  one resolution of \<open>w\<close> and no \<^verbatim>\<open>join\<close> on \<open>w\<close> has returned through a handle. What the
  worker itself does after the release is not part of the state: the state has the handles
  and the log of resolutions, not the execution of a worker.
\<close>

lemma detach_handle_side:
  assumes owned: "heap s h = Some w"
  shows "joining_thread_detach h s
      = (Inr (), s\<lparr>heap := (heap s)(h := None), log := log s @ [Detached w]\<rparr>)
    \<and> \<not> joining_thread_joinable h (snd (joining_thread_detach h s))
    \<and> joining_thread_join h (snd (joining_thread_detach h s))
        = (Inl NotJoinable, snd (joining_thread_detach h s))
    \<and> joining_thread_detach h (snd (joining_thread_detach h s))
        = (Inl NotJoinable, snd (joining_thread_detach h s))
    \<and> (exactly_once s \<and> h < frame_top s \<longrightarrow>
         (\<forall>a < frame_top s. heap (snd (joining_thread_detach h s)) a \<noteq> Some w)
         \<and> (well_formed (frame_top s) ops \<longrightarrow>
              (\<forall>a < frame_top (snd (exec ops (snd (joining_thread_detach h s)))).
                  heap (snd (exec ops (snd (joining_thread_detach h s)))) a \<noteq> Some w)
              \<and> resolutions (snd (run_scope ops (snd (joining_thread_detach h s)))) w = 1
              \<and> Joined w \<notin> set (log (snd (run_scope ops (snd (joining_thread_detach h s)))))))"
proof -
  let ?s' = "s\<lparr>heap := (heap s)(h := None), log := log s @ [Detached w]\<rparr>"
  have d: "joining_thread_detach h s = (Inr (), ?s')" using owned by (rule detach_owned)
  have nj: "\<not> joining_thread_joinable h ?s'"
    by (simp add: joining_thread_joinable_def thread_joinable_def)
  have j2: "joining_thread_join h ?s' = (Inl NotJoinable, ?s')" by (rule join_empty) simp
  have d2: "joining_thread_detach h ?s' = (Inl NotJoinable, ?s')" by (rule detach_empty) simp
  have rest: "(\<forall>a < frame_top s. heap ?s' a \<noteq> Some w)
      \<and> (well_formed (frame_top s) ops \<longrightarrow>
           (\<forall>a < frame_top (snd (exec ops ?s')). heap (snd (exec ops ?s')) a \<noteq> Some w)
           \<and> resolutions (snd (run_scope ops ?s')) w = 1
           \<and> Joined w \<notin> set (log (snd (run_scope ops ?s'))))"
    if inv: "exactly_once s" and h: "h < frame_top s"
  proof -
    have inv': "exactly_once ?s'" using inv h owned by (rule inv_resolve) simp
    have pos: "0 < owners s w"
      using holders_pos [of h "frame_top s" "heap s" w] h owned by (simp add: owners_def)
    have sum: "owners s w + resolutions s w = (if w < next_tid s then 1 else 0)"
      using inv by (simp add: exactly_once_def)
    with pos have w: "w < next_tid s" and r0: "resolutions s w = 0"
      by (simp_all split: if_splits)
    have r1: "resolutions ?s' w = 1" using r0 by (simp add: resolutions_append)
    have sum': "owners ?s' w + resolutions ?s' w = (if w < next_tid ?s' then 1 else 0)"
      using inv' by (simp add: exactly_once_def)
    with r1 w have o1: "owners ?s' w = 0" by simp
    have nc0: "Joined w \<notin> set (log s)"
      using r0 by (auto simp: resolutions_def filter_empty_conv)
    have nc: "Joined w \<notin> set (log ?s')" using nc0 by simp
    have free: "\<forall>a < frame_top s. heap ?s' a \<noteq> Some w"
    proof (intro allI impI notI)
      fix a assume "a < frame_top s" and "heap ?s' a = Some w"
      then have "0 < holders (heap ?s') (frame_top ?s') w"
        using holders_pos [of a "frame_top ?s'" "heap ?s'" w] by simp
      with o1 show False by (simp add: owners_def)
    qed
    have later: "(\<forall>a < frame_top (snd (exec ops ?s')). heap (snd (exec ops ?s')) a \<noteq> Some w)
        \<and> resolutions (snd (run_scope ops ?s')) w = 1
        \<and> Joined w \<notin> set (log (snd (run_scope ops ?s')))"
      if wf: "well_formed (frame_top s) ops"
    proof -
      let ?e = "snd (exec ops ?s')"
      let ?t = "snd (run_scope ops ?s')"
      have wf': "well_formed (frame_top ?s') ops" using wf by simp
      from exec_inv [OF inv' wf'] have inve: "exactly_once ?e" by simp
      obtain es where es: "log ?e = log ?s' @ es" using exec_log by blast
      have we: "w < next_tid ?e" using next_tid_exec [of ?s' ops] w by simp
      have "resolutions ?s' w \<le> resolutions ?e w" using es by (simp add: resolutions_def)
      moreover have "owners ?e w + resolutions ?e w = 1"
        using inve we by (simp add: exactly_once_def)
      ultimately have oe: "owners ?e w = 0" using r1 by simp
      have 1: "\<forall>a < frame_top ?e. heap ?e a \<noteq> Some w"
      proof (intro allI impI notI)
        fix a assume "a < frame_top ?e" and "heap ?e a = Some w"
        then have "0 < holders (heap ?e) (frame_top ?e) w"
          using holders_pos [of a "frame_top ?e" "heap ?e" w] by simp
        with oe show False by (simp add: owners_def)
      qed
      from run_scope_inv [OF inv' wf', of w]
      have invt: "exactly_once ?t" and ot: "owners ?t w = 0"
        and nt: "next_tid ?t = next_tid ?e"
        and lt: "\<exists>es. log ?t = log ?s' @ es" by simp_all
      have "owners ?t w + resolutions ?t w = 1"
        using invt we nt by (simp add: exactly_once_def)
      with ot have rt: "resolutions ?t w = 1" by simp
      obtain es' where "log ?t = log ?s' @ es'" using lt by blast
      with r1 rt have "(Joined w \<in> set (log ?t)) = (Joined w \<in> set (log ?s'))"
        by (intro resolved_stays)
      then show ?thesis using 1 rt nc by simp
    qed
    show ?thesis using free later by blast
  qed
  show ?thesis unfolding d snd_conv using nj j2 d2 rest by blast
qed

section \<open>Arguments are captured by value\<close>

lemma capture_brk: "brk m \<le> brk (snd (capture args m))"
proof (induction args m rule: capture.induct)
  case (1 m)
  show ?case by simp
next
  case (2 a args m)
  let ?m1 = "m\<lparr>cells := (cells m)(brk m := cells m a), brk := Suc (brk m)\<rparr>"
  from 2 [of "brk m"] have "brk ?m1 \<le> brk (snd (capture args ?m1))" by simp
  then show ?case by (simp add: Let_def case_prod_beta)
next
  case (3 a args m)
  then show ?case by (simp add: case_prod_beta)
qed

lemma capture_frame: "a < brk m \<Longrightarrow> cells (snd (capture args m)) a = cells m a"
proof (induction args m rule: capture.induct)
  case (1 m)
  show ?case by simp
next
  case (2 b args m)
  let ?m1 = "m\<lparr>cells := (cells m)(brk m := cells m b), brk := Suc (brk m)\<rparr>"
  from 2 have "cells (snd (capture args ?m1)) a = cells ?m1 a" by simp
  then show ?case using "2.prems" by (simp add: Let_def case_prod_beta)
next
  case (3 b args m)
  then show ?case by (simp add: case_prod_beta)
qed

lemma capture_params:
  "p \<in> set (fst (capture args m)) \<Longrightarrow> brk m \<le> p \<or> StdRef p \<in> set args"
proof (induction args m rule: capture.induct)
  case (1 m)
  then show ?case by simp
next
  case (2 b args m)
  let ?m1 = "m\<lparr>cells := (cells m)(brk m := cells m b), brk := Suc (brk m)\<rparr>"
  from "2.prems" have "p = brk m \<or> p \<in> set (fst (capture args ?m1))"
    by (auto simp: Let_def case_prod_beta)
  then show ?case
  proof
    assume "p = brk m"
    then show ?thesis by simp
  next
    assume "p \<in> set (fst (capture args ?m1))"
    with 2 have "brk ?m1 \<le> p \<or> StdRef p \<in> set args" by simp
    then show ?thesis by auto
  qed
next
  case (3 b args m)
  from "3.prems" have "p = b \<or> p \<in> set (fst (capture args m))"
    by (auto simp: case_prod_beta)
  then show ?case using 3 by auto
qed

lemma write_back_other: "a \<notin> set ps \<Longrightarrow> write_back ps vs c a = c a"
  by (induction ps vs c rule: write_back.induct) simp_all

lemma funpow_plus_one: "((+) (1::int) ^^ n) x = x + int n"
  by (induction n) simp_all

lemma capture_length: "length (fst (capture args m)) = length args"
proof (induction args m rule: capture.induct)
  case (1 m)
  show ?case by simp
next
  case (2 b args m)
  then show ?case by (simp add: Let_def case_prod_beta)
next
  case (3 b args m)
  then show ?case by (simp add: case_prod_beta)
qed

lemma capture_values:
  "list_all (\<lambda>x. target x < brk m) args \<Longrightarrow>
     map (cells (snd (capture args m))) (fst (capture args m)) = map (cells m) (map target args)"
proof (induction args m rule: capture.induct)
  case (1 m)
  show ?case by simp
next
  case (2 b args m)
  let ?m1 = "m\<lparr>cells := (cells m)(brk m := cells m b), brk := Suc (brk m)\<rparr>"
  from "2.prems" have b: "b < brk m" and rest: "list_all (\<lambda>x. target x < brk m) args"
    by simp_all
  have rest1: "list_all (\<lambda>x. target x < brk ?m1) args"
    using rest by (simp add: list_all_iff less_Suc_eq)
  have "map (cells (snd (capture args ?m1))) (fst (capture args ?m1))
      = map (cells ?m1) (map target args)"
    using 2 rest1 by simp
  also have "\<dots> = map (cells m) (map target args)"
    using rest by (auto simp: list_all_iff)
  finally have tl: "map (cells (snd (capture args ?m1))) (fst (capture args ?m1))
      = map (cells m) (map target args)" .
  have "cells (snd (capture args ?m1)) (brk m) = cells ?m1 (brk m)"
    by (rule capture_frame) simp
  then have hd: "cells (snd (capture args ?m1)) (brk m) = cells m b" by simp
  show ?case using tl hd by (simp add: Let_def case_prod_beta)
next
  case (3 b args m)
  from "3.prems" have b: "b < brk m" and rest: "list_all (\<lambda>x. target x < brk m) args"
    by simp_all
  have "cells (snd (capture args m)) b = cells m b" using b by (rule capture_frame)
  then show ?case using 3 rest by (simp add: case_prod_beta)
qed

lemma assigns_works_on_parameters: "works_on_parameters (assigns g)"
  by (simp add: works_on_parameters_def assigns_def write_back_other)

text \<open>
  Claim C7, as amended. A worker created through \<^verbatim>\<open>joining_thread(func, args...)\<close> gets
  its arguments by value: its parameters start with the values the arguments had, building
  the thread changes no object of the caller, and a parameter is an object of the caller only
  where the caller wrote \<^verbatim>\<open>std::ref\<close>; otherwise it is a new cell. So an argument object that
  was passed without \<^verbatim>\<open>std::ref\<close> holds the same value after the worker has run as before,
  whenever the callable works on its parameters only. (A callable that does more, through a
  reference that was copied with it or with an argument, is not bound by this.)
\<close>

theorem arguments_are_copied:
  "list_all (\<lambda>x. target x < brk m) args \<longrightarrow>
     map (cells (snd (capture args m))) (fst (capture args m)) = map (cells m) (map target args)
     \<and> (\<forall>a < brk m. cells (snd (capture args m)) a = cells m a)
     \<and> (\<forall>p \<in> set (fst (capture args m)). p < brk m \<longrightarrow> StdRef p \<in> set args)
     \<and> (works_on_parameters f \<longrightarrow>
          (\<forall>a. Plain a \<in> set args \<and> StdRef a \<notin> set args \<longrightarrow>
               cells (joining_thread_forward f args m) a = cells m a))"
proof (intro impI conjI allI ballI)
  assume "list_all (\<lambda>x. target x < brk m) args"
  then show "map (cells (snd (capture args m))) (fst (capture args m))
      = map (cells m) (map target args)"
    by (rule capture_values)
next
  fix a assume "a < brk m"
  then show "cells (snd (capture args m)) a = cells m a" by (rule capture_frame)
next
  fix p assume "p \<in> set (fst (capture args m))" and "p < brk m"
  then show "StdRef p \<in> set args" using capture_params [of p args m] by simp
next
  fix a
  assume wf: "list_all (\<lambda>x. target x < brk m) args" and f: "works_on_parameters f"
    and a: "Plain a \<in> set args \<and> StdRef a \<notin> set args"
  obtain ps m' where c: "capture args m = (ps, m')" by (cases "capture args m")
  from wf a have lt: "a < brk m" by (auto simp: list_all_iff)
  have "a \<notin> set ps"
  proof
    assume "a \<in> set ps"
    then have "a \<in> set (fst (capture args m))" by (simp add: c)
    then have "brk m \<le> a \<or> StdRef a \<in> set args" by (rule capture_params)
    with a lt show False by simp
  qed
  with f have "f ps (cells m') a = cells m' a" by (simp add: works_on_parameters_def)
  moreover have "cells m' a = cells m a" using capture_frame [of a m args] lt c by simp
  ultimately show "cells (joining_thread_forward f args m) a = cells m a"
    by (simp add: joining_thread_forward_def run_thread_def invoke_def c)
qed

theorem arguments_are_copied_witness:
  "list_all (\<lambda>x. target x < 2) [Plain 0, StdRef 1]
   \<and> works_on_parameters (assigns (map (\<lambda>v. Num 9)))
   \<and> fst (capture [Plain 0, StdRef 1] \<lparr>cells = (\<lambda>a. Num 0)(0 := Num 5, 1 := Num 7), brk = 2\<rparr>)
       = [2, 1]
   \<and> map (cells (snd (capture [Plain 0, StdRef 1]
                         \<lparr>cells = (\<lambda>a. Num 0)(0 := Num 5, 1 := Num 7), brk = 2\<rparr>))) [2, 1]
       = [Num 5, Num 7]
   \<and> cells (joining_thread_forward (assigns (map (\<lambda>v. Num 9))) [Plain 0, StdRef 1]
              \<lparr>cells = (\<lambda>a. Num 0)(0 := Num 5, 1 := Num 7), brk = 2\<rparr>) 0 = Num 5
   \<and> cells (joining_thread_forward (assigns (map (\<lambda>v. Num 9))) [Plain 0, StdRef 1]
              \<lparr>cells = (\<lambda>a. Num 0)(0 := Num 5, 1 := Num 7), brk = 2\<rparr>) 1 = Num 9"
proof -
  let ?m = "\<lparr>cells = (\<lambda>a. Num 0)(0 := Num 5, 1 := Num 7), brk = 2 :: nat\<rparr>"
  let ?f = "assigns (map (\<lambda>v. Num 9))"
  have wf: "list_all (\<lambda>x. target x < brk ?m) [Plain 0, StdRef 1]" by simp
  have f: "works_on_parameters ?f" by (rule assigns_works_on_parameters)
  have arg: "Plain 0 \<in> set [Plain 0, StdRef 1] \<and> StdRef 0 \<notin> set [Plain 0, StdRef 1]"
    by simp
  from arguments_are_copied [of ?m "[Plain 0, StdRef 1]" ?f] wf
  have vals: "map (cells (snd (capture [Plain 0, StdRef 1] ?m)))
        (fst (capture [Plain 0, StdRef 1] ?m))
      = map (cells ?m) (map target [Plain 0, StdRef 1])"
    and frame: "works_on_parameters ?f \<longrightarrow>
      (\<forall>a. Plain a \<in> set [Plain 0, StdRef 1] \<and> StdRef a \<notin> set [Plain 0, StdRef 1] \<longrightarrow>
           cells (joining_thread_forward ?f [Plain 0, StdRef 1] ?m) a = cells ?m a)"
    by blast+
  from frame f arg
  have kept: "cells (joining_thread_forward ?f [Plain 0, StdRef 1] ?m) 0 = cells ?m 0"
    by blast
  have ps: "fst (capture [Plain 0, StdRef 1] ?m) = [2, 1]" by (simp add: Let_def)
  have shared: "cells (joining_thread_forward ?f [Plain 0, StdRef 1] ?m) 1 = Num 9"
    by (simp add: joining_thread_forward_def run_thread_def invoke_def assigns_def Let_def)
  show ?thesis using wf f vals kept ps shared by simp
qed

text \<open>
  Claim C7 as it is stated does not hold: a mutable reference reaches a worker for which the
  caller used no \<^verbatim>\<open>std::ref\<close>. In \<^verbatim>\<open>f2\<close> the callable \<^verbatim>\<open>my_func\<close> is passed plainly and copied;
  the copy refers to \<^verbatim>\<open>some_local_state\<close> as the original does. When the guard's \<^verbatim>\<open>join\<close> has
  returned, with \<^verbatim>\<open>do_something\<close> adding one, \<^verbatim>\<open>some_local_state\<close> holds a million and no
  longer the zero that \<^verbatim>\<open>f2\<close> gave it. By the same way an argument object itself is changed:
  passed plainly next to a copy of \<^verbatim>\<open>my_func\<close> to a function that stores through the
  reference, \<^verbatim>\<open>some_local_state\<close> ends with the value stored.
\<close>

theorem reference_member_counterexample:
  "StdRef (brk fresh) \<notin> set [Plain (Suc (brk fresh))]
   \<and> brk fresh < brk (f2_locals fresh)
   \<and> cells (joining_thread_forward (func_call ((+) 1)) [Plain (Suc (brk fresh))]
              (f2_locals fresh)) (brk fresh)
       \<noteq> cells (f2_locals fresh) (brk fresh)
   \<and> cells (f2_joined ((+) 1) fresh) (brk fresh) = Num 1000000
   \<and> cells (f2_locals fresh) (brk fresh) = Num 0
   \<and> Plain (brk fresh) \<in> set [Plain (brk fresh), Plain (Suc (brk fresh))]
   \<and> StdRef (brk fresh) \<notin> set [Plain (brk fresh), Plain (Suc (brk fresh))]
   \<and> cells (joining_thread_forward store_through [Plain (brk fresh), Plain (Suc (brk fresh))]
              (f2_locals fresh)) (brk fresh) = Num 42"
proof -
  have l: "f2_locals fresh = \<lparr>cells = (\<lambda>a. Num 0)(0 := Num 0, 1 := Ref 0), brk = 2\<rparr>"
    by (simp add: f2_locals_def fresh_def Let_def)
  have b: "brk fresh = 0" by (simp add: fresh_def)
  have r: "cells (run_thread (func_call ((+) 1)) [Plain (Suc 0)] (f2_locals fresh)) 0
      = Num 1000000"
    by (simp add: l run_thread_def invoke_def func_call_def Let_def funpow_plus_one
        del: funpow.simps)
  have t: "cells (run_thread store_through [Plain 0, Plain (Suc 0)] (f2_locals fresh)) 0
      = Num 42"
    by (simp add: l run_thread_def invoke_def store_through_def Let_def)
  show ?thesis
    using r t by (simp add: b f2_joined_def joining_thread_forward_def) (simp add: l)
qed

end
